theory Spec2Isabelle
  imports Main "HOL-Library.Multiset" "HOL-Library.Word"
begin

section \<open>Asset tiles of the model plugin\<close>

text \<open>
  The development embeds the tile (thumbnail) generation of \<^verbatim>\<open>ModelPlugin\<close> in
  \<^verbatim>\<open>src/renderer/editor/plugins.cpp\<close>: the request router \<^verbatim>\<open>createTile\<close>, the
  admission ring with its overflow array (\<^verbatim>\<open>pushTileQueue\<close>, \<^verbatim>\<open>popTileQueue\<close>), the
  per-tick pipeline \<^verbatim>\<open>update\<close> with the two \<^verbatim>\<open>renderTile\<close> overloads and
  \<^verbatim>\<open>renderPrefabSecondStage\<close>, the encoder \<^verbatim>\<open>saveAsDDS\<close> and the background loop
  \<^verbatim>\<open>createTextureTileTask\<close>.

  The plugin's own fields are a record. The file system is a map from file names to
  contents. Every call into a collaborator whose code is outside the plugin (resource
  managers, the tile universe, the pipeline, bgfx, the image libraries, the error log) is
  appended to a trace, in the order in which the source makes the calls. What a collaborator
  answers (resource states, decoder and compressor results) is read from an environment
  record that is an argument of every operation. A violated \<^verbatim>\<open>ASSERT\<close> is the result
  \<open>None\<close>.
\<close>

subsection \<open>Data\<close>

type_synonym bytes = "8 word list"

text \<open>A decoded image: pixels, width, height.\<close>

type_synonym image = "bytes \<times> nat \<times> nat"

datatype ResourceType =
    Texture_TYPE
  | Material_TYPE
  | Shader_TYPE
  | Model_TYPE
  | PrefabResource_TYPE
  | Other_TYPE string

datatype ResourceState = EMPTY | READY | FAILURE

text \<open>
  A \<^verbatim>\<open>Resource*\<close> handed out by a resource manager: the manager (type) that loaded it
  and its path. Loading one path twice from one manager yields the same resource.
\<close>

record Resource =
  getType :: ResourceType
  getPath :: string

datatype event =
    LogError string
  | ManagerLoad ResourceType string
  | ManagerUnload Resource
  | CreateEntity int
  | InstantiatePrefab Resource int
  | SetModelInstancePath int string
  | OnLoaded Resource
  | DestroyEntity int
  | PipelineRender
  | CreateTexture2D nat
  | Blit nat
  | ReadTexture nat
  | DestroyTexture "nat option"
  | CrnCompress bool
  | OpenRead string bool
  | StbiLoad string bool

text \<open>
  The environment: the answers of the collaborators. \<open>getScene\<close> and \<open>getPlugin\<close> say
  whether the tile universe has a render scene and whether the renderer plugin exists (the
  two null checks of the render functions). The three prefab fields answer
  \<^verbatim>\<open>instantiatePrefab\<close> (a valid entity or not), \<^verbatim>\<open>hasComponent(mesh_entity,
  MODEL_INSTANCE_TYPE)\<close> and \<^verbatim>\<open>getModelInstanceModel\<close> for the root entity of a prefab.
\<close>

record env =
  crc32 :: "string \<Rightarrow> 32 word"
  getHash :: "string \<Rightarrow> 32 word"
  getState :: "Resource \<Rightarrow> ResourceState"
  getScene :: bool
  getPlugin :: bool
  instantiates :: "Resource \<Rightarrow> bool"
  hasComponent :: "Resource \<Rightarrow> bool"
  getModelInstanceModel :: "Resource \<Rightarrow> Resource option"
  readTexture :: bytes
  crn_compress :: "bytes \<Rightarrow> bytes option"
  open_CREATE_AND_WRITE :: "string \<Rightarrow> bool"
  crn_decompress_dds_to_images :: "bytes \<Rightarrow> image option"
  stbi_load :: "bytes \<Rightarrow> image option"
  stbir_resize_uint8 :: "image \<Rightarrow> bytes"

text \<open>
  The plugin: the fields of \<^verbatim>\<open>TileData m_tile\<close> (entity in fly, frame countdown, path
  hash, pixel data, read-back texture, admission ring, overflow array), the fields of
  \<^verbatim>\<open>TextureTileCreator\<close> (shutdown flag, semaphore count, pending tiles), the file system,
  the allocation counters of the tile universe and of bgfx, and the trace.
  \<^verbatim>\<open>Entity\<close> is its index: an \<open>int\<close>, valid when not negative.
\<close>

record ModelPlugin =
  m_entity_in_fly :: int
  frame_countdown :: int
  path_hash :: "32 word"
  data :: bytes
  texture :: "nat option"
  queue :: "Resource list"
  paths :: "string list"
  shutdown :: bool
  semaphore :: nat
  tiles :: "string list"
  files :: "string \<rightharpoonup> bytes"
  next_entity :: nat
  next_texture :: nat
  trace :: "event list"

definition INVALID_ENTITY :: int where
  "INVALID_ENTITY = - 1"

definition isValid :: "int \<Rightarrow> bool" where
  "isValid entity = (0 \<le> entity)"

definition isReady :: "env \<Rightarrow> Resource \<Rightarrow> bool" where
  "isReady e r = (getState e r = READY)"

definition isFailure :: "env \<Rightarrow> Resource \<Rightarrow> bool" where
  "isFailure e r = (getState e r = FAILURE)"

subsection \<open>Containers and helpers of the engine\<close>

text \<open>
  Modelled from the spec: \<^verbatim>\<open>Queue<Resource*, 8>\<close> (engine/queue.h is not among the
  sources) is the bounded ring of capacity 8 of the data model, first in, first out:
  \<^verbatim>\<open>push\<close> appends behind the last element and asserts that there is room, \<^verbatim>\<open>pop\<close>
  removes the front element and asserts that there is one.
\<close>

definition QUEUE_CAPACITY :: nat where
  "QUEUE_CAPACITY = 8"

definition queue_full :: "'a list \<Rightarrow> bool" where
  "queue_full q = (length q = QUEUE_CAPACITY)"

definition queue_push :: "'a \<Rightarrow> 'a list \<Rightarrow> 'a list option" where
  "queue_push x q = (if length q < QUEUE_CAPACITY then Some (q @ [x]) else None)"

definition queue_pop :: "'a list \<Rightarrow> 'a list option" where
  "queue_pop q = (case q of [] \<Rightarrow> None | x # r \<Rightarrow> Some r)"

definition queue_front :: "'a list \<Rightarrow> 'a option" where
  "queue_front q = (case q of [] \<Rightarrow> None | x # r \<Rightarrow> Some x)"

text \<open>
  Modelled from the spec: \<^verbatim>\<open>Array<T>\<close> (engine/array.h is not among the sources) is the
  ordered sequence of the data model: \<^verbatim>\<open>push\<close> and \<^verbatim>\<open>emplace\<close> append at the end,
  \<^verbatim>\<open>back\<close> is the last element (none in an empty array), \<^verbatim>\<open>pop\<close> removes the last
  element.
\<close>

definition array_push :: "'a \<Rightarrow> 'a list \<Rightarrow> 'a list" where
  "array_push x a = a @ [x]"

definition array_back :: "'a list \<Rightarrow> 'a option" where
  "array_back a = (if a = [] then None else Some (last a))"

definition array_pop :: "'a list \<Rightarrow> 'a list" where
  "array_pop a = butlast a"

text \<open>
  Modelled from the spec: \<^verbatim>\<open>MT::Semaphore\<close> is the counting wait primitive: a signal
  adds one to the count, a wait takes one from it and suspends the caller while it is 0.
  The source constructs it as \<^verbatim>\<open>semaphore(0, 64 * 1024)\<close>: initial count 0, maximal count
  65536. Here a signal at the maximal count leaves the count there; the properties below
  that count signals are stated for at most 65536 pending tiles, where the maximum is not
  passed.
\<close>

definition SEMAPHORE_MAX :: nat where
  "SEMAPHORE_MAX = 64 * 1024"

definition semaphore_signal :: "nat \<Rightarrow> nat" where
  "semaphore_signal n = min (n + 1) SEMAPHORE_MAX"

text \<open>
  Modelled from the spec: \<^verbatim>\<open>PathUtils::hasExtension\<close>; the extension of a file name is
  the text behind its last dot.
\<close>

definition getExtension :: "string \<Rightarrow> string" where
  "getExtension src =
     (if CHR ''.'' \<in> set src then rev (takeWhile (\<lambda>c. c \<noteq> CHR ''.'') (rev src)) else [])"

definition hasExtension :: "string \<Rightarrow> string \<Rightarrow> bool" where
  "hasExtension filename ext = (getExtension filename = ext)"

text \<open>The decimal text of an unsigned number, as \<^verbatim>\<open>StaticString\<close> appends a \<^verbatim>\<open>u32\<close>.\<close>

fun toCString :: "nat \<Rightarrow> string" where
  "toCString n =
     (if n < 10 then [''0123456789'' ! n]
      else toCString (n div 10) @ [''0123456789'' ! (n mod 10)])"

declare toCString.simps [simp del]

definition tile_path :: "32 word \<Rightarrow> string" where
  "tile_path hash = ''.lumix/asset_tiles/'' @ toCString (unat hash) @ ''.dds''"

definition log_error :: "string \<Rightarrow> ModelPlugin \<Rightarrow> ModelPlugin" where
  "log_error msg s = s\<lparr>trace := trace s @ [LogError msg]\<rparr>"

text \<open>
  Modelled from the spec: \<^verbatim>\<open>copyFile\<close> (editor/utils) copies the source file verbatim
  to the destination and answers whether it did; it fails when the source does not exist.
\<close>

definition copyFile :: "string \<Rightarrow> string \<Rightarrow> ModelPlugin \<Rightarrow> bool \<times> ModelPlugin" where
  "copyFile from to s =
     (case files s from of
        None \<Rightarrow> (False, s)
      | Some content \<Rightarrow> (True, s\<lparr>files := (files s)(to \<mapsto> content)\<rparr>))"

subsection \<open>The encoder\<close>

text \<open>
  \<^verbatim>\<open>saveAsDDS\<close>: compress, then create the file and write it. The result is false when the
  compressor returns no block or the file cannot be created. (\<^verbatim>\<open>ASSERT(image_data)\<close> is
  a null check of a pointer; buffers are values here.)
\<close>

definition saveAsDDS :: "env \<Rightarrow> string \<Rightarrow> bytes \<Rightarrow> ModelPlugin \<Rightarrow> bool \<times> ModelPlugin" where
  "saveAsDDS e path image_data s =
     (case crn_compress e image_data of
        None \<Rightarrow> (False, s\<lparr>trace := trace s @ [CrnCompress False]\<rparr>)
      | Some block \<Rightarrow>
          (let s1 = s\<lparr>trace := trace s @ [CrnCompress True]\<rparr>
           in if open_CREATE_AND_WRITE e path
              then (True, s1\<lparr>files := (files s1)(path \<mapsto> block)\<rparr>)
              else (False, s1)))"

subsection \<open>The admission ring and the request router\<close>

definition pushTileQueue :: "string \<Rightarrow> ModelPlugin \<Rightarrow> ModelPlugin option" where
  "pushTileQueue path s =
     (if queue_full (queue s) then None
      else
        (let manager = (if hasExtension path ''fab'' then PrefabResource_TYPE else Model_TYPE);
             resource = \<lparr>getType = manager, getPath = path\<rparr>;
             s1 = s\<lparr>trace := trace s @ [ManagerLoad manager path]\<rparr>
         in case queue_push resource (queue s1) of
              None \<Rightarrow> None
            | Some q \<Rightarrow> Some (s1\<lparr>queue := q\<rparr>)))"

definition popTileQueue :: "ModelPlugin \<Rightarrow> ModelPlugin option" where
  "popTileQueue s =
     (case queue_pop (queue s) of
        None \<Rightarrow> None
      | Some q \<Rightarrow>
          (let s1 = s\<lparr>queue := q\<rparr>
           in if paths s1 = [] then Some s1
              else (case array_back (paths s1) of
                      None \<Rightarrow> None
                    | Some path \<Rightarrow> pushTileQueue path (s1\<lparr>paths := array_pop (paths s1)\<rparr>))))"

definition createTile ::
  "string \<Rightarrow> string \<Rightarrow> ResourceType \<Rightarrow> ModelPlugin \<Rightarrow> (bool \<times> ModelPlugin) option" where
  "createTile in_path out_path type s =
     (if type = Texture_TYPE
      then Some (True, s\<lparr>tiles := array_push in_path (tiles s),
                         semaphore := semaphore_signal (semaphore s)\<rparr>)
      else if type = Material_TYPE
      then Some (copyFile ''models/editor/tile_material.dds'' out_path s)
      else if type = Shader_TYPE
      then Some (copyFile ''models/editor/tile_shader.dds'' out_path s)
      else if type \<noteq> Model_TYPE \<and> type \<noteq> PrefabResource_TYPE
      then Some (False, s)
      else if \<not> queue_full (queue s)
      then map_option (Pair True) (pushTileQueue in_path s)
      else Some (True, s\<lparr>paths := array_push in_path (paths s)\<rparr>))"

subsection \<open>The staged render pipeline\<close>

text \<open>
  \<^verbatim>\<open>renderTile(Model*, Matrix*)\<close>, called by \<^verbatim>\<open>update\<close> with a null matrix. The camera
  matrix is floating-point geometry that reaches the renderer only and is left out. The
  function creates the transient entity, renders, blits, issues the read-back, destroys the
  entity, sets the countdown to 2 and unloads the model.
\<close>

definition renderTile_Model :: "env \<Rightarrow> Resource \<Rightarrow> ModelPlugin \<Rightarrow> ModelPlugin" where
  "renderTile_Model e model s =
     (if \<not> getScene e then s
      else if \<not> getPlugin e then s
      else
        (let mesh_entity = int (next_entity s);
             tex = next_texture s
         in s\<lparr>next_entity := Suc (next_entity s),
               next_texture := Suc tex,
               texture := Some tex,
               data := readTexture e,
               frame_countdown := 2,
               path_hash := getHash e (getPath model),
               trace := trace s @
                 [CreateEntity mesh_entity,
                  SetModelInstancePath mesh_entity (getPath model),
                  PipelineRender, CreateTexture2D tex, Blit tex, ReadTexture tex,
                  DestroyEntity mesh_entity,
                  ManagerUnload model]\<rparr>))"

text \<open>
  \<^verbatim>\<open>renderPrefabSecondStage\<close>, the callback bound to the model of a prefab: it renders
  once the model is ready, destroys the entity in fly and sets the countdown to 2.
\<close>

definition renderPrefabSecondStage :: "env \<Rightarrow> Resource \<Rightarrow> ModelPlugin \<Rightarrow> ModelPlugin" where
  "renderPrefabSecondStage e model s =
     (if \<not> getScene e then s
      else if \<not> getPlugin e then s
      else if \<not> isReady e model then s
      else
        (let tex = next_texture s
         in s\<lparr>next_texture := Suc tex,
               texture := Some tex,
               data := readTexture e,
               frame_countdown := 2,
               m_entity_in_fly := INVALID_ENTITY,
               trace := trace s @
                 [PipelineRender, CreateTexture2D tex, Blit tex, ReadTexture tex,
                  DestroyEntity (m_entity_in_fly s)]\<rparr>))"

text \<open>
  \<^verbatim>\<open>Universe::instantiatePrefab\<close>: a fresh entity, or the invalid entity when the
  environment says that the prefab does not instantiate.
\<close>

definition instantiatePrefab :: "env \<Rightarrow> Resource \<Rightarrow> ModelPlugin \<Rightarrow> int \<times> ModelPlugin" where
  "instantiatePrefab e prefab s =
     (if instantiates e prefab
      then (int (next_entity s),
            s\<lparr>next_entity := Suc (next_entity s),
              trace := trace s @ [InstantiatePrefab prefab (int (next_entity s))]\<rparr>)
      else (INVALID_ENTITY,
            s\<lparr>trace := trace s @ [InstantiatePrefab prefab INVALID_ENTITY]\<rparr>))"

text \<open>
  \<^verbatim>\<open>renderTile(PrefabResource*)\<close>. \<^verbatim>\<open>Resource::onLoaded\<close> binds the callback and calls it
  at once when the model is ready already.
\<close>

definition renderTile_Prefab :: "env \<Rightarrow> Resource \<Rightarrow> ModelPlugin \<Rightarrow> ModelPlugin" where
  "renderTile_Prefab e prefab s =
     (if \<not> getScene e then s
      else if \<not> getPlugin e then s
      else
        (case instantiatePrefab e prefab s of (mesh_entity, s1) \<Rightarrow>
           if \<not> isValid mesh_entity then s1
           else if \<not> hasComponent e prefab then s1
           else
             (case getModelInstanceModel e prefab of
                None \<Rightarrow> s1
              | Some model \<Rightarrow>
                  (let s2 = s1\<lparr>path_hash := getHash e (getPath prefab),
                               m_entity_in_fly := mesh_entity,
                               trace := trace s1 @ [ManagerUnload prefab, OnLoaded model]\<rparr>
                   in if isReady e model then renderPrefabSecondStage e model s2 else s2))))"

text \<open>\<^verbatim>\<open>update\<close>, the tick of the plugin.\<close>

definition update :: "env \<Rightarrow> ModelPlugin \<Rightarrow> ModelPlugin option" where
  "update e s =
     (if 0 \<le> frame_countdown s then
        (let s1 = s\<lparr>frame_countdown := frame_countdown s - 1\<rparr>
         in if frame_countdown s1 = - 1
            then (case saveAsDDS e (tile_path (path_hash s1)) (data s1) s1 of (ok, s2) \<Rightarrow>
                    Some (s2\<lparr>trace := trace s2 @ [DestroyTexture (texture s2)]\<rparr>))
            else Some s1)
      else if isValid (m_entity_in_fly s) then Some s
      else if queue s = [] then Some s
      else
        (case queue_front (queue s) of
           None \<Rightarrow> None
         | Some resource \<Rightarrow>
             if isFailure e resource
             then popTileQueue (log_error (''Failed to load '' @ getPath resource) s)
             else if \<not> isReady e resource then Some s
             else
               (case popTileQueue s of
                  None \<Rightarrow> None
                | Some s1 \<Rightarrow>
                    if getType resource = Model_TYPE
                    then Some (renderTile_Model e resource s1)
                    else if getType resource = PrefabResource_TYPE
                    then Some (renderTile_Prefab e resource s1)
                    else None)))"

subsection \<open>The background worker\<close>

text \<open>
  The body of the loop of \<^verbatim>\<open>createTextureTileTask\<close> behind the pop: decode the image of
  one tile, resize it and save it, or copy the placeholder tile.
\<close>

definition save_resized :: "env \<Rightarrow> string \<Rightarrow> bytes \<Rightarrow> ModelPlugin \<Rightarrow> ModelPlugin" where
  "save_resized e out_path resized_data s =
     (case saveAsDDS e out_path resized_data s of (ok, s1) \<Rightarrow>
        if \<not> ok then log_error (''Failed to save '' @ out_path) s1 else s1)"

definition texture_tile :: "env \<Rightarrow> string \<Rightarrow> ModelPlugin \<Rightarrow> ModelPlugin" where
  "texture_tile e tile s =
     (let hash = crc32 e tile;
          out_path = tile_path hash
      in if hasExtension tile ''dds'' then
           (case files s tile of
              None \<Rightarrow>
                log_error (''Failed to load '' @ tile)
                  (snd (copyFile ''models/editor/tile_texture.dds'' out_path
                     (s\<lparr>trace := trace s @ [OpenRead tile False]\<rparr>)))
            | Some content \<Rightarrow>
                (let s1 = s\<lparr>trace := trace s @ [OpenRead tile True]\<rparr>
                 in case crn_decompress_dds_to_images e content of
                      None \<Rightarrow> snd (copyFile ''models/editor/tile_texture.dds'' out_path s1)
                    | Some img \<Rightarrow> save_resized e out_path (stbir_resize_uint8 e img) s1))
         else
           (case Option.bind (files s tile) (stbi_load e) of
              None \<Rightarrow>
                snd (copyFile ''models/editor/tile_texture.dds'' out_path
                  (log_error (''Failed to load '' @ tile)
                     (s\<lparr>trace := trace s @ [StbiLoad tile False]\<rparr>)))
            | Some img \<Rightarrow>
                save_resized e out_path (stbir_resize_uint8 e img)
                  (s\<lparr>trace := trace s @ [StbiLoad tile True]\<rparr>)))"

text \<open>
  One pass through the loop. The thread leaves the loop when the shutdown flag is set
  (\<open>Break\<close>); \<^verbatim>\<open>semaphore.wait()\<close> suspends it while the count is 0 (\<open>Blocked\<close>);
  otherwise the count goes down by one, the last pending tile is taken under the lock and
  processed, and the loop goes on (\<open>Continue\<close>), also behind each \<^verbatim>\<open>continue\<close> of the
  failure branches.
\<close>

datatype loop_ctl = Continue | Break | Blocked

definition tile_task_pass :: "env \<Rightarrow> ModelPlugin \<Rightarrow> (loop_ctl \<times> ModelPlugin) option" where
  "tile_task_pass e s =
     (if shutdown s then Some (Break, s)
      else if semaphore s = 0 then Some (Blocked, s)
      else
        (let s1 = s\<lparr>semaphore := semaphore s - 1\<rparr>
         in if shutdown s1 then Some (Break, s1)
            else (case array_back (tiles s1) of
                    None \<Rightarrow> None
                  | Some tile \<Rightarrow>
                      Some (Continue, texture_tile e tile (s1\<lparr>tiles := array_pop (tiles s1)\<rparr>)))))"

text \<open>
  \<^verbatim>\<open>createTextureTileTask\<close>: the loop, run until the thread leaves it or is suspended in
  \<^verbatim>\<open>wait\<close>. It ends because the count of the semaphore goes down with every pass
  and no branch of the loop body touches the semaphore.
\<close>

function createTextureTileTask :: "env \<Rightarrow> ModelPlugin \<Rightarrow> ModelPlugin option" where
  "createTextureTileTask e s =
     (case tile_task_pass e s of
        None \<Rightarrow> None
      | Some (ctl, s') \<Rightarrow> if ctl = Continue then createTextureTileTask e s' else Some s')"
  by pat_completeness auto
termination
  by (relation "measure (\<lambda>(e, s). semaphore s)")
    (auto simp: tile_task_pass_def Let_def texture_tile_def save_resized_def saveAsDDS_def
       copyFile_def log_error_def split: if_splits option.splits)

declare createTextureTileTask.simps [simp del]

subsection \<open>Executions\<close>

text \<open>
  The plugin after its constructor: nothing in fly, countdown \<open>- 1\<close>, empty ring, overflow
  array and tile array, semaphore count 0. \<^verbatim>\<open>createTileUniverse\<close> has created the light
  entity and the camera entity, so the next entity of the tile universe is the third.
  (\<^verbatim>\<open>path_hash\<close> has no initialiser in the source; it is written before it is read.)
\<close>

definition new_ModelPlugin :: "(string \<rightharpoonup> bytes) \<Rightarrow> ModelPlugin" where
  "new_ModelPlugin fs =
     \<lparr>m_entity_in_fly = INVALID_ENTITY, frame_countdown = - 1, path_hash = 0, data = [],
      texture = None, queue = [], paths = [], shutdown = False, semaphore = 0, tiles = [],
      files = fs, next_entity = 2, next_texture = 0, trace = []\<rparr>"

text \<open>The first two statements of the destructor: set the flag, wake the worker.\<close>

definition request_shutdown :: "ModelPlugin \<Rightarrow> ModelPlugin" where
  "request_shutdown s = s\<lparr>shutdown := True, semaphore := semaphore_signal (semaphore s)\<rparr>"

text \<open>
  What can happen to the plugin: a request, a tick, a state change of a model to which
  \<^verbatim>\<open>renderTile(PrefabResource*)\<close> has bound the callback (the source never unbinds it),
  one pass of the worker, the shutdown request.
\<close>

datatype operation =
    CreateTile string string ResourceType
  | Update env
  | ModelStateChanged env Resource
  | TileTaskPass env
  | Shutdown

fun step :: "operation \<Rightarrow> ModelPlugin \<Rightarrow> ModelPlugin option" where
  "step (CreateTile in_path out_path type) s = map_option snd (createTile in_path out_path type s)"
| "step (Update e) s = update e s"
| "step (ModelStateChanged e model) s =
     Some (if OnLoaded model \<in> set (trace s) then renderPrefabSecondStage e model s else s)"
| "step (TileTaskPass e) s = map_option snd (tile_task_pass e s)"
| "step Shutdown s = Some (request_shutdown s)"

fun run :: "operation list \<Rightarrow> ModelPlugin \<Rightarrow> ModelPlugin option" where
  "run [] s = Some s"
| "run (x # xs) s = (case step x s of None \<Rightarrow> None | Some s' \<Rightarrow> run xs s')"

text \<open>The resource that \<^verbatim>\<open>pushTileQueue\<close> loads for a path.\<close>

definition load_resource :: "string \<Rightarrow> Resource" where
  "load_resource path =
     \<lparr>getType = (if hasExtension path ''fab'' then PrefabResource_TYPE else Model_TYPE),
      getPath = path\<rparr>"

text \<open>
  Number of tiles in flight: one for a valid entity in fly (a prefab waiting for its model),
  one for a countdown that has not run out.
\<close>

definition in_flight :: "ModelPlugin \<Rightarrow> nat" where
  "in_flight s =
     (if isValid (m_entity_in_fly s) then 1 else 0) + (if 0 \<le> frame_countdown s then 1 else 0)"

text \<open>
  The tile generations that the trace shows: a model is handed to the render scene in
  \<^verbatim>\<open>renderTile(Model*)\<close>, a prefab is instantiated in \<^verbatim>\<open>renderTile(PrefabResource*)\<close>,
  an image is opened by the worker.
\<close>

fun rendered :: "event list \<Rightarrow> Resource list" where
  "rendered [] = []"
| "rendered (SetModelInstancePath entity path # evs) =
     \<lparr>getType = Model_TYPE, getPath = path\<rparr> # rendered evs"
| "rendered (InstantiatePrefab prefab entity # evs) = prefab # rendered evs"
| "rendered (ev # evs) = rendered evs"

fun resized :: "event list \<Rightarrow> string list" where
  "resized [] = []"
| "resized (OpenRead tile ok # evs) = tile # resized evs"
| "resized (StbiLoad tile ok # evs) = tile # resized evs"
| "resized (ev # evs) = resized evs"

text \<open>Environments for concrete runs: every resource ready, every image decodable.\<close>

definition env_ready :: env where
  "env_ready =
     \<lparr>crc32 = (\<lambda>p. of_nat (length p)), getHash = (\<lambda>p. of_nat (length p)),
      getState = (\<lambda>r. READY), getScene = True, getPlugin = True,
      instantiates = (\<lambda>r. True), hasComponent = (\<lambda>r. True),
      getModelInstanceModel = (\<lambda>r. Some \<lparr>getType = Model_TYPE, getPath = ''m.msh''\<rparr>),
      readTexture = [1, 2, 3, 4],
      crn_compress = (\<lambda>d. Some (0 # d)), open_CREATE_AND_WRITE = (\<lambda>p. True),
      crn_decompress_dds_to_images = (\<lambda>d. Some (d, 1, 1)),
      stbi_load = (\<lambda>d. Some (d, 1, 1)), stbir_resize_uint8 = fst\<rparr>"

subsection \<open>Invariant of the plugin\<close>

text \<open>
  What every execution keeps: the ring holds at most 8 resources, the overflow array is
  used only while the ring is full, the ring holds models and prefabs only, no entity is in
  fly while a countdown runs, and every unit of the semaphore count stands for a pending
  tile (until shutdown).
\<close>

definition plugin_inv :: "ModelPlugin \<Rightarrow> bool" where
  "plugin_inv s =
     (length (queue s) \<le> QUEUE_CAPACITY \<and>
      (paths s \<noteq> [] \<longrightarrow> length (queue s) = QUEUE_CAPACITY) \<and>
      (\<forall>r \<in> set (queue s). getType r = Model_TYPE \<or> getType r = PrefabResource_TYPE) \<and>
      \<not> (isValid (m_entity_in_fly s) \<and> 0 \<le> frame_countdown s) \<and>
      (shutdown s \<or> semaphore s \<le> length (tiles s)))"

subsection \<open>Concrete states\<close>

text \<open>A plugin whose ring is full: eight requests for the model \<open>a.msh\<close>.\<close>

definition full_ring :: ModelPlugin where
  "full_ring = (new_ModelPlugin Map.empty)\<lparr>queue := replicate 8 (load_resource ''a.msh'')\<rparr>"

text \<open>
  The plugin one tick after the requests for the models \<open>a.msh\<close> and \<open>b.msh\<close>, with
  every resource ready: \<open>a.msh\<close> has been rendered and its read-back issued, the countdown
  is 2, \<open>b.msh\<close> waits in the ring.
\<close>

definition draining :: ModelPlugin where
  "draining =
     (new_ModelPlugin Map.empty)
       \<lparr>frame_countdown := 2, queue := [load_resource ''b.msh''], texture := Some 0,
        data := [1, 2, 3, 4], path_hash := 5, next_entity := 3, next_texture := 1,
        trace := [ManagerLoad Model_TYPE ''a.msh'', ManagerLoad Model_TYPE ''b.msh'',
          CreateEntity 2, SetModelInstancePath 2 ''a.msh'', PipelineRender, CreateTexture2D 0,
          Blit 0, ReadTexture 0, DestroyEntity 2, ManagerUnload (load_resource ''a.msh'')]\<rparr>"

text \<open>
  An environment in which models are still loading, and the plugin after the tick that took
  the prefab \<open>p.fab\<close> in that environment: the prefab is instantiated and unloaded, its
  entity is in fly, the callback is bound to its model \<open>m.msh\<close>.
\<close>

definition env_loading :: env where
  "env_loading = env_ready\<lparr>getState := (\<lambda>r. if getType r = Model_TYPE then EMPTY else READY)\<rparr>"

definition prefab_waiting :: ModelPlugin where
  "prefab_waiting =
     (new_ModelPlugin Map.empty)
       \<lparr>m_entity_in_fly := 2, path_hash := 5, next_entity := 3,
        trace := [ManagerLoad PrefabResource_TYPE ''p.fab'',
          InstantiatePrefab (load_resource ''p.fab'') 2, ManagerUnload (load_resource ''p.fab''),
          OnLoaded (load_resource ''m.msh'')]\<rparr>"

text \<open>
  An environment whose compressor rejects every input, and a file system with the
  placeholder tile and two images.
\<close>

definition env_no_compress :: env where
  "env_no_compress = env_ready\<lparr>crn_compress := (\<lambda>d. None)\<rparr>"

definition tile_files :: "string \<rightharpoonup> bytes" where
  "tile_files =
     [''models/editor/tile_texture.dds'' \<mapsto> [7, 7], ''a.tga'' \<mapsto> [1], ''b.dds'' \<mapsto> [2]]"

text \<open>An environment whose DDS decompressor rejects every input.\<close>

definition env_no_decompress :: env where
  "env_no_decompress = env_ready\<lparr>crn_decompress_dds_to_images := (\<lambda>d. None)\<rparr>"

text \<open>
  Ten model requests and the plugin after them: eight resources in the ring, the requests
  \<open>A.msh\<close> and then \<open>B.msh\<close> in the overflow array. \<open>pops n\<close> is \<^verbatim>\<open>popTileQueue\<close> called
  \<open>n\<close> times.
\<close>

definition ten_requests :: "operation list" where
  "ten_requests =
     map (\<lambda>p. CreateTile p [] Model_TYPE)
       [''1.msh'', ''2.msh'', ''3.msh'', ''4.msh'', ''5.msh'', ''6.msh'', ''7.msh'', ''8.msh'',
        ''A.msh'', ''B.msh'']"

definition overflowing :: ModelPlugin where
  "overflowing =
     (new_ModelPlugin Map.empty)
       \<lparr>queue := map load_resource
          [''1.msh'', ''2.msh'', ''3.msh'', ''4.msh'', ''5.msh'', ''6.msh'', ''7.msh'', ''8.msh''],
        paths := [''A.msh'', ''B.msh''],
        trace := map (ManagerLoad Model_TYPE)
          [''1.msh'', ''2.msh'', ''3.msh'', ''4.msh'', ''5.msh'', ''6.msh'', ''7.msh'', ''8.msh'']\<rparr>"

primrec pops :: "nat \<Rightarrow> ModelPlugin \<Rightarrow> ModelPlugin option" where
  "pops 0 s = Some s"
| "pops (Suc n) s = Option.bind (popTileQueue s) (pops n)"

text \<open>
  An environment is ready for a resource when it reports the resource ready and, for a
  prefab, instantiates it to an entity with a model instance whose model is ready. It is
  cooperative for a list of resources when the tile universe has its render scene, the
  renderer exists and it is ready for every resource of the list. A list of requests is
  a list of the arguments of \<^verbatim>\<open>createTile\<close>; \<open>images\<close> are its texture requests,
  \<open>renderables\<close> the resources of its model and prefab requests.
\<close>

definition ready_for :: "env \<Rightarrow> Resource \<Rightarrow> bool" where
  "ready_for e r =
     (getState e r = READY \<and>
      (getType r = PrefabResource_TYPE \<longrightarrow>
         instantiates e r \<and> hasComponent e r \<and>
         (case getModelInstanceModel e r of
            None \<Rightarrow> False
          | Some model \<Rightarrow> getState e model = READY)))"



fun images :: "(string \<times> string \<times> ResourceType) list \<Rightarrow> string list" where
  "images [] = []"
| "images ((in_path, out_path, type) # reqs) =
     (if type = Texture_TYPE then [in_path] else []) @ images reqs"

fun renderables :: "(string \<times> string \<times> ResourceType) list \<Rightarrow> Resource list" where
  "renderables [] = []"
| "renderables ((in_path, out_path, type) # reqs) =
     (if type = Model_TYPE \<or> type = PrefabResource_TYPE then [load_resource in_path] else [])
       @ renderables reqs"

text \<open>
  For executions in any order: the model and prefab requests among the operations; the
  executions in which every tick finds the render scene and the renderer and no resource
  reports a failure; and the requests that wait in the ring or in the overflow array.
\<close>

fun submitted :: "operation list \<Rightarrow> Resource list" where
  "submitted [] = []"
| "submitted (CreateTile in_path out_path type # xs) =
     (if type = Model_TYPE \<or> type = PrefabResource_TYPE then [load_resource in_path] else [])
       @ submitted xs"
| "submitted (x # xs) = submitted xs"

fun no_failure :: "operation list \<Rightarrow> bool" where
  "no_failure [] = True"
| "no_failure (Update e # xs) =
     (getScene e \<and> getPlugin e \<and> (\<forall>r. getState e r \<noteq> FAILURE) \<and> no_failure xs)"
| "no_failure (x # xs) = no_failure xs"

definition waiting :: "ModelPlugin \<Rightarrow> Resource multiset" where
  "waiting s = mset (queue s) + mset (map load_resource (paths s))"

subsection \<open>The render pipeline under changing readiness\<close>















section \<open>Properties\<close>

text \<open>The definitions that evaluate the operations on a concrete state.\<close>

lemmas plugin_defs =
  new_ModelPlugin_def INVALID_ENTITY_def isValid_def isReady_def isFailure_def
  QUEUE_CAPACITY_def queue_full_def queue_push_def queue_pop_def queue_front_def
  array_push_def array_back_def array_pop_def SEMAPHORE_MAX_def semaphore_signal_def
  getExtension_def hasExtension_def tile_path_def log_error_def copyFile_def saveAsDDS_def
  pushTileQueue_def popTileQueue_def createTile_def renderTile_Model_def
  renderPrefabSecondStage_def instantiatePrefab_def renderTile_Prefab_def update_def
  save_resized_def texture_tile_def tile_task_pass_def request_shutdown_def load_resource_def
  in_flight_def env_ready_def Let_def

subsection \<open>The invariant holds in every execution\<close>

lemma pushTileQueue_Some:
  "length (queue s) < QUEUE_CAPACITY \<Longrightarrow>
   pushTileQueue path s =
     Some (s\<lparr>queue := queue s @ [load_resource path],
             trace := trace s @ [ManagerLoad (getType (load_resource path)) path]\<rparr>)"
  by (simp add: pushTileQueue_def queue_full_def queue_push_def load_resource_def Let_def)

lemma popTileQueue_empty_paths:
  "queue s = r # q \<Longrightarrow> paths s = [] \<Longrightarrow> popTileQueue s = Some (s\<lparr>queue := q\<rparr>)"
  by (simp add: popTileQueue_def queue_pop_def)

lemma popTileQueue_refill:
  "queue s = r # q \<Longrightarrow> length q < QUEUE_CAPACITY \<Longrightarrow> paths s = ps @ [p] \<Longrightarrow>
   popTileQueue s =
     Some (s\<lparr>queue := q @ [load_resource p], paths := ps,
             trace := trace s @ [ManagerLoad (getType (load_resource p)) p]\<rparr>)"
  by (simp add: popTileQueue_def queue_pop_def array_back_def array_pop_def pushTileQueue_Some)

lemma getType_load_resource:
  "getType (load_resource p) = Model_TYPE \<or> getType (load_resource p) = PrefabResource_TYPE"
  by (simp add: load_resource_def)

lemma popTileQueue_inv:
  assumes "plugin_inv s" "queue s \<noteq> []"
  shows "\<exists>s'. popTileQueue s = Some s' \<and> plugin_inv s' \<and>
           m_entity_in_fly s' = m_entity_in_fly s \<and> frame_countdown s' = frame_countdown s"
proof -
  from assms(2) obtain r q where q: "queue s = r # q" by (cases "queue s") auto
  with assms(1) have len: "length q < QUEUE_CAPACITY" by (simp add: plugin_inv_def)
  show ?thesis
  proof (cases "paths s = []")
    case True
    with q assms(1) show ?thesis
      by (simp add: popTileQueue_empty_paths plugin_inv_def)
  next
    case False
    then obtain ps p where ps: "paths s = ps @ [p]" by (metis rev_exhaust)
    with assms(1) q have "Suc (length q) = QUEUE_CAPACITY" by (simp add: plugin_inv_def)
    with q ps len assms(1) show ?thesis
      using getType_load_resource [of p]
      by (auto simp add: popTileQueue_refill plugin_inv_def QUEUE_CAPACITY_def)
  qed
qed


lemma renderTile_Model_inv:
  "plugin_inv s \<Longrightarrow> \<not> isValid (m_entity_in_fly s) \<Longrightarrow> plugin_inv (renderTile_Model e r s)"
  by (simp add: plugin_inv_def renderTile_Model_def Let_def)

lemma renderPrefabSecondStage_inv:
  "plugin_inv s \<Longrightarrow> plugin_inv (renderPrefabSecondStage e m s)"
  by (simp add: plugin_inv_def renderPrefabSecondStage_def Let_def INVALID_ENTITY_def isValid_def)

lemma renderTile_Prefab_inv:
  "plugin_inv s \<Longrightarrow> \<not> 0 \<le> frame_countdown s \<Longrightarrow> plugin_inv (renderTile_Prefab e r s)"
  by (auto simp add: plugin_inv_def renderTile_Prefab_def renderPrefabSecondStage_def
      instantiatePrefab_def Let_def INVALID_ENTITY_def isValid_def split: option.split)

lemma saveAsDDS_inv:
  "plugin_inv s \<Longrightarrow> plugin_inv (snd (saveAsDDS e p d s))"
  by (simp add: plugin_inv_def saveAsDDS_def Let_def split: option.split)

lemma saveAsDDS_countdown:
  "frame_countdown (snd (saveAsDDS e p d s)) = frame_countdown s"
  by (simp add: saveAsDDS_def Let_def split: option.split)

lemma copyFile_inv:
  "plugin_inv s \<Longrightarrow> plugin_inv (snd (copyFile a b s))"
  by (simp add: plugin_inv_def copyFile_def split: option.split)

lemma update_inv:
  assumes "plugin_inv s"
  shows "\<exists>s'. update e s = Some s' \<and> plugin_inv s'"
proof (cases "0 \<le> frame_countdown s")
  case True
  then have nv: "\<not> isValid (m_entity_in_fly s)" using assms by (simp add: plugin_inv_def)
  show ?thesis
  proof (cases "frame_countdown s = 0")
    case z: True
    have "plugin_inv (snd (saveAsDDS e (tile_path (path_hash s)) (data s) (s\<lparr>frame_countdown := - 1\<rparr>)))"
      using assms by (intro saveAsDDS_inv) (simp add: plugin_inv_def)
    then show ?thesis using z
      by (simp add: update_def Let_def split: prod.split) (auto simp: plugin_inv_def)
  next
    case False
    with True assms show ?thesis
      by (simp add: update_def Let_def plugin_inv_def)
  qed
next
  case neg: False
  show ?thesis
  proof (cases "isValid (m_entity_in_fly s) \<or> queue s = []")
    case True
    with neg assms show ?thesis by (auto simp: update_def)
  next
    case False
    then obtain r q where q: "queue s = r # q" by (cases "queue s") auto
    have ty: "getType r = Model_TYPE \<or> getType r = PrefabResource_TYPE"
      using assms q by (simp add: plugin_inv_def)
    show ?thesis
    proof (cases "isFailure e r")
      case True
      have "plugin_inv (log_error (''Failed to load '' @ getPath r) s)"
        using assms by (simp add: plugin_inv_def log_error_def)
      moreover have "queue (log_error (''Failed to load '' @ getPath r) s) \<noteq> []"
        using q by (simp add: log_error_def)
      ultimately obtain s' where
        "popTileQueue (log_error (''Failed to load '' @ getPath r) s) = Some s'" "plugin_inv s'"
        using popTileQueue_inv by blast
      with True neg False q show ?thesis
        by (simp add: update_def queue_front_def)
    next
      case nf: False
      show ?thesis
      proof (cases "isReady e r")
        case False
        with nf neg \<open>\<not> (isValid (m_entity_in_fly s) \<or> queue s = [])\<close> q assms show ?thesis
          by (simp add: update_def queue_front_def)
      next
        case True
        from assms q obtain s1 where s1: "popTileQueue s = Some s1" "plugin_inv s1"
          "m_entity_in_fly s1 = m_entity_in_fly s" "frame_countdown s1 = frame_countdown s"
          using popTileQueue_inv [of s] by auto
        have "plugin_inv (renderTile_Model e r s1)" "plugin_inv (renderTile_Prefab e r s1)"
          using s1 neg False
          by (simp_all add: renderTile_Model_inv renderTile_Prefab_inv)
        with True nf neg False q s1 ty show ?thesis
          by (auto simp add: update_def queue_front_def)
      qed
    qed
  qed
qed

lemma createTile_inv:
  assumes "plugin_inv s"
  shows "\<exists>b s'. createTile i out t s = Some (b, s') \<and> plugin_inv s'"
proof -
  have tex: "plugin_inv (s\<lparr>tiles := array_push i (tiles s),
                 semaphore := semaphore_signal (semaphore s)\<rparr>)"
    using assms by (auto simp: plugin_inv_def array_push_def semaphore_signal_def)
  have ovf: "queue_full (queue s) \<Longrightarrow> plugin_inv (s\<lparr>paths := array_push i (paths s)\<rparr>)"
    using assms by (auto simp: plugin_inv_def array_push_def queue_full_def)
  have psh: "\<not> queue_full (queue s) \<Longrightarrow>
      \<exists>s'. pushTileQueue i s = Some s' \<and> plugin_inv s'"
    using assms getType_load_resource [of i]
    by (subst pushTileQueue_Some) (auto simp: plugin_inv_def queue_full_def)
  have cp: "\<And>a. \<exists>b s'. copyFile a out s = (b, s') \<and> plugin_inv s'"
    using copyFile_inv [OF assms] by (metis prod.collapse)
  show ?thesis
    using tex ovf psh cp assms by (auto simp: createTile_def)
qed


lemma save_resized_inv: "plugin_inv s \<Longrightarrow> plugin_inv (save_resized e p d s)"
  by (simp add: plugin_inv_def save_resized_def saveAsDDS_def log_error_def Let_def
      split: option.split)

lemma log_error_inv: "plugin_inv s \<Longrightarrow> plugin_inv (log_error m s)"
  by (simp add: plugin_inv_def log_error_def)

lemma trace_update_inv: "plugin_inv s \<Longrightarrow> plugin_inv (s\<lparr>trace := t\<rparr>)"
  by (simp add: plugin_inv_def)

lemma texture_tile_inv: "plugin_inv s \<Longrightarrow> plugin_inv (texture_tile e tile s)"
  by (simp add: texture_tile_def Let_def save_resized_inv log_error_inv copyFile_inv
      trace_update_inv split: option.split)

lemma tile_task_pass_inv:
  assumes "plugin_inv s"
  shows "\<exists>c s'. tile_task_pass e s = Some (c, s') \<and> plugin_inv s'"
proof (cases "shutdown s \<or> semaphore s = 0")
  case True
  with assms show ?thesis by (auto simp: tile_task_pass_def)
next
  case False
  with assms have ne: "tiles s \<noteq> []" by (auto simp: plugin_inv_def)
  have "plugin_inv (s\<lparr>semaphore := semaphore s - 1, tiles := array_pop (tiles s)\<rparr>)"
    using assms False by (auto simp: plugin_inv_def array_pop_def)
  then have "plugin_inv (texture_tile e (last (tiles s))
      (s\<lparr>semaphore := semaphore s - 1, tiles := array_pop (tiles s)\<rparr>))"
    by (rule texture_tile_inv)
  with False ne show ?thesis
    by (simp add: tile_task_pass_def Let_def array_back_def)
qed

lemma request_shutdown_inv: "plugin_inv s \<Longrightarrow> plugin_inv (request_shutdown s)"
  by (simp add: plugin_inv_def request_shutdown_def)

lemma step_inv:
  assumes "plugin_inv s"
  shows "\<exists>s'. step x s = Some s' \<and> plugin_inv s'"
proof (cases x)
  case (CreateTile i out t)
  with createTile_inv [OF assms, of i out t] show ?thesis by auto
next
  case (Update e)
  with update_inv [OF assms, of e] show ?thesis by simp
next
  case (ModelStateChanged e m)
  with assms show ?thesis by (simp add: renderPrefabSecondStage_inv)
next
  case (TileTaskPass e)
  with tile_task_pass_inv [OF assms, of e] show ?thesis by auto
next
  case Shutdown
  with assms show ?thesis by (simp add: request_shutdown_inv)
qed

lemma run_inv:
  "plugin_inv s \<Longrightarrow> \<exists>s'. run xs s = Some s' \<and> plugin_inv s'"
proof (induction xs arbitrary: s)
  case Nil
  then show ?case by simp
next
  case (Cons x xs)
  from step_inv [OF Cons.prems, of x] obtain s1 where "step x s = Some s1" "plugin_inv s1"
    by blast
  with Cons.IH [of s1] show ?case by simp
qed

lemma new_ModelPlugin_inv: "plugin_inv (new_ModelPlugin fs)"
  by (simp add: plugin_inv_def new_ModelPlugin_def INVALID_ENTITY_def isValid_def)


subsection \<open>Length of the ring\<close>

lemma queue_renderTile_Model: "queue (renderTile_Model e r s) = queue s"
  by (simp add: renderTile_Model_def Let_def)

lemma queue_renderPrefabSecondStage: "queue (renderPrefabSecondStage e m s) = queue s"
  by (simp add: renderPrefabSecondStage_def Let_def)

lemma queue_renderTile_Prefab: "queue (renderTile_Prefab e r s) = queue s"
  by (simp add: renderTile_Prefab_def instantiatePrefab_def queue_renderPrefabSecondStage Let_def
      split: option.split)

lemma queue_saveAsDDS: "queue (snd (saveAsDDS e p d s)) = queue s"
  by (simp add: saveAsDDS_def Let_def split: option.split)

lemma queue_copyFile: "queue (snd (copyFile a b s)) = queue s"
  by (simp add: copyFile_def split: option.split)

lemma pushTileQueue_length:
  "pushTileQueue p s = Some s' \<Longrightarrow> length (queue s') = Suc (length (queue s)) \<and> length (queue s) < QUEUE_CAPACITY"
  by (auto simp: pushTileQueue_def queue_push_def Let_def split: if_splits)

lemma popTileQueue_length:
  "popTileQueue s = Some s' \<Longrightarrow> length (queue s') \<le> length (queue s)"
  by (auto simp: popTileQueue_def queue_pop_def Let_def
      split: list.splits if_splits option.splits dest!: pushTileQueue_length)

lemma update_length:
  assumes "update e s = Some s'"
  shows "length (queue s') \<le> length (queue s)"
proof (cases "0 \<le> frame_countdown s")
  case True
  with assms show ?thesis
    using queue_saveAsDDS [of e "tile_path (path_hash s)" "data s" "s\<lparr>frame_countdown := - 1\<rparr>"]
    by (auto simp: update_def Let_def split: if_splits prod.splits)
next
  case False
  with assms show ?thesis
    by (auto simp: update_def queue_front_def log_error_def queue_renderTile_Model
        queue_renderTile_Prefab
        split: if_splits option.splits list.splits dest!: popTileQueue_length)
qed

lemma createTile_length:
  assumes "createTile i out t s = Some (b, s')" "length (queue s) \<le> QUEUE_CAPACITY"
  shows "length (queue s') \<le> QUEUE_CAPACITY"
  using assms queue_copyFile [of "''models/editor/tile_material.dds''" out s]
    queue_copyFile [of "''models/editor/tile_shader.dds''" out s]
  by (auto simp: createTile_def split: if_splits dest!: pushTileQueue_length)

lemma createTile_overflow:
  assumes "queue_full (queue s)" "t = Model_TYPE \<or> t = PrefabResource_TYPE"
  shows "createTile i out t s = Some (True, s\<lparr>paths := paths s @ [i]\<rparr>)"
  using assms by (auto simp: createTile_def array_push_def)

lemma createTile_Texture:
  "createTile i out Texture_TYPE s =
     Some (True, s\<lparr>tiles := tiles s @ [i], semaphore := semaphore_signal (semaphore s)\<rparr>)"
  by (simp add: createTile_def array_push_def)

lemma createTile_push:
  assumes "length (queue s) < QUEUE_CAPACITY" "t = Model_TYPE \<or> t = PrefabResource_TYPE"
  shows "createTile i out t s =
     Some (True, s\<lparr>queue := queue s @ [load_resource i],
                   trace := trace s @ [ManagerLoad (getType (load_resource i)) i]\<rparr>)"
  using assms by (auto simp: createTile_def queue_full_def pushTileQueue_Some)

lemma createTile_unrecognized:
  "createTile i out (Other_TYPE n) s = Some (False, s)"
  by (simp add: createTile_def)

subsection \<open>Tiles in flight\<close>

lemma rendered_append: "rendered (xs @ ys) = rendered xs @ rendered ys"
  by (induction xs rule: rendered.induct) simp_all

lemma update_in_flight:
  assumes "0 < in_flight s" "update e s = Some s'"
  shows "queue s' = queue s \<and> paths s' = paths s \<and> rendered (trace s') = rendered (trace s) \<and>
         in_flight s' \<le> in_flight s"
proof (cases "0 \<le> frame_countdown s")
  case True
  show ?thesis
  proof (cases "frame_countdown s = 0")
    case z: True
    with assms(2) show ?thesis
      by (auto simp: update_def saveAsDDS_def in_flight_def Let_def rendered_append
          split: option.splits if_splits)
  next
    case False
    with True assms(2) show ?thesis
      by (auto simp: update_def in_flight_def Let_def)
  qed
next
  case False
  with assms(1) have "isValid (m_entity_in_fly s)"
    by (simp add: in_flight_def split: if_splits)
  with False assms(2) show ?thesis by (simp add: update_def)
qed

lemma plugin_inv_in_flight: "plugin_inv s \<Longrightarrow> in_flight s \<le> 1"
  by (auto simp: plugin_inv_def in_flight_def)

subsection \<open>The countdown\<close>

lemma update_countdown:
  "0 < frame_countdown s \<Longrightarrow> update e s = Some (s\<lparr>frame_countdown := frame_countdown s - 1\<rparr>)"
  by (simp add: update_def Let_def)

lemma update_finalize:
  assumes "frame_countdown s = 0"
  shows "update e s =
     Some (s\<lparr>frame_countdown := - 1,
             files := (case crn_compress e (data s) of
                         None \<Rightarrow> files s
                       | Some block \<Rightarrow>
                           if open_CREATE_AND_WRITE e (tile_path (path_hash s))
                           then (files s)(tile_path (path_hash s) \<mapsto> block) else files s),
             trace := trace s @
               [CrnCompress (crn_compress e (data s) \<noteq> None), DestroyTexture (texture s)]\<rparr>)"
  using assms by (simp add: update_def saveAsDDS_def Let_def split: option.split)

subsection \<open>The render functions when they render\<close>

lemma renderTile_Model_renders:
  assumes "getScene e" "getPlugin e"
  shows "renderTile_Model e model s =
     s\<lparr>next_entity := Suc (next_entity s), next_texture := Suc (next_texture s),
       texture := Some (next_texture s), data := readTexture e, frame_countdown := 2,
       path_hash := getHash e (getPath model),
       trace := trace s @
         [CreateEntity (int (next_entity s)),
          SetModelInstancePath (int (next_entity s)) (getPath model),
          PipelineRender, CreateTexture2D (next_texture s), Blit (next_texture s),
          ReadTexture (next_texture s), DestroyEntity (int (next_entity s)),
          ManagerUnload model]\<rparr>"
  using assms by (simp add: renderTile_Model_def Let_def)

lemma renderPrefabSecondStage_renders:
  assumes "getScene e" "getPlugin e" "isReady e model"
  shows "renderPrefabSecondStage e model s =
     s\<lparr>next_texture := Suc (next_texture s), texture := Some (next_texture s),
       data := readTexture e, frame_countdown := 2, m_entity_in_fly := INVALID_ENTITY,
       trace := trace s @
         [PipelineRender, CreateTexture2D (next_texture s), Blit (next_texture s),
          ReadTexture (next_texture s), DestroyEntity (m_entity_in_fly s)]\<rparr>"
  using assms by (simp add: renderPrefabSecondStage_def Let_def)

lemma renderTile_Prefab_renders:
  assumes "getScene e" "getPlugin e" "instantiates e prefab" "hasComponent e prefab"
    "getModelInstanceModel e prefab = Some model" "isReady e model"
  shows "renderTile_Prefab e prefab s =
     s\<lparr>next_entity := Suc (next_entity s), next_texture := Suc (next_texture s),
       texture := Some (next_texture s), data := readTexture e, frame_countdown := 2,
       path_hash := getHash e (getPath prefab), m_entity_in_fly := INVALID_ENTITY,
       trace := trace s @
         [InstantiatePrefab prefab (int (next_entity s)), ManagerUnload prefab, OnLoaded model,
          PipelineRender, CreateTexture2D (next_texture s), Blit (next_texture s),
          ReadTexture (next_texture s), DestroyEntity (int (next_entity s))]\<rparr>"
  using assms
  by (simp add: renderTile_Prefab_def instantiatePrefab_def renderPrefabSecondStage_renders
      isValid_def Let_def)


subsection \<open>A failing encoder\<close>

lemma fst_saveAsDDS:
  "fst (saveAsDDS e p d s) = (crn_compress e d \<noteq> None \<and> open_CREATE_AND_WRITE e p)"
  by (simp add: saveAsDDS_def Let_def split: option.split)

lemma saveAsDDS_fails:
  "\<not> fst (saveAsDDS e p d s) \<Longrightarrow>
   snd (saveAsDDS e p d s) = s\<lparr>trace := trace s @ [CrnCompress (crn_compress e d \<noteq> None)]\<rparr>"
  by (auto simp: saveAsDDS_def Let_def split: option.splits)

lemma save_resized_fails:
  assumes "\<not> fst (saveAsDDS e p d s)"
  shows "save_resized e p d s =
     s\<lparr>trace := trace s @
       [CrnCompress (crn_compress e d \<noteq> None), LogError (''Failed to save '' @ p)]\<rparr>"
  using assms saveAsDDS_fails [OF assms]
  by (cases "saveAsDDS e p d s") (simp add: save_resized_def log_error_def)

subsection \<open>One pass of the worker\<close>

lemma resized_append: "resized (xs @ ys) = resized xs @ resized ys"
  by (induction xs rule: resized.induct) simp_all

lemma trace_copyFile: "trace (snd (copyFile a b s)) = trace s"
  by (simp add: copyFile_def split: option.split)

lemma trace_save_resized:
  "\<exists>evs. trace (save_resized e p d s) = trace s @ evs \<and> resized evs = []"
  by (auto simp: save_resized_def saveAsDDS_def log_error_def Let_def split: option.split)

lemma resized_texture_tile:
  "resized (trace (texture_tile e tile s)) = resized (trace s) @ [tile]"
proof -
  have *: "resized (trace (save_resized e p d s')) = resized (trace s')" for p d s'
    using trace_save_resized [of e p d s'] by (auto simp: resized_append)
  show ?thesis
    by (simp add: texture_tile_def Let_def log_error_def trace_copyFile resized_append *
        split: option.split)
qed

lemma tiles_texture_tile: "tiles (texture_tile e tile s) = tiles s"
  by (simp add: texture_tile_def Let_def save_resized_def saveAsDDS_def copyFile_def log_error_def
      split: option.split)

lemma semaphore_texture_tile: "semaphore (texture_tile e tile s) = semaphore s"
  by (simp add: texture_tile_def Let_def save_resized_def saveAsDDS_def copyFile_def log_error_def
      split: option.split)

lemma tile_task_pass_takes_last:
  assumes "\<not> shutdown s" "0 < semaphore s" "tiles s = ts @ [t]"
  shows "\<exists>s'. tile_task_pass e s = Some (Continue, s') \<and> tiles s' = ts \<and>
           resized (trace s') = resized (trace s) @ [t] \<and> semaphore s' = semaphore s - 1"
  using assms
  by (simp add: tile_task_pass_def Let_def array_back_def array_pop_def tiles_texture_tile
      resized_texture_tile semaphore_texture_tile)

lemma texture_tile_placeholder:
  assumes "files s ''models/editor/tile_texture.dds'' = Some placeholder"
    and "(if hasExtension tile ''dds''
          then Option.bind (files s tile) (crn_decompress_dds_to_images e)
          else Option.bind (files s tile) (stbi_load e)) = None"
  shows "files (texture_tile e tile s) = (files s)(tile_path (crc32 e tile) \<mapsto> placeholder)"
  using assms
  by (auto simp: texture_tile_def Let_def copyFile_def log_error_def
      split: option.splits if_splits)

subsection \<open>Refill of the ring\<close>

lemma popTileQueue_step:
  assumes "queue s \<noteq> []" "length (queue s) \<le> QUEUE_CAPACITY" "paths s \<noteq> []"
  shows "popTileQueue s =
     Some (s\<lparr>queue := tl (queue s) @ [load_resource (last (paths s))],
             paths := butlast (paths s),
             trace := trace s @ [ManagerLoad (getType (load_resource (last (paths s)))) (last (paths s))]\<rparr>)"
proof -
  from assms(1) obtain r q where q: "queue s = r # q" by (cases "queue s") auto
  with assms(2) have "length q < QUEUE_CAPACITY" by simp
  from popTileQueue_refill [OF q this, of "butlast (paths s)" "last (paths s)"] assms(3) q
  show ?thesis by simp
qed

lemma run_append:
  "run (xs @ ys) s = Option.bind (run xs s) (run ys)"
  by (induction xs arbitrary: s) (auto split: option.split)

subsection \<open>Draining the ring and the tile array\<close>

lemma popTileQueue_conserves:
  assumes "plugin_inv s" "queue s = r # q"
  shows "\<exists>s1. popTileQueue s = Some s1 \<and> plugin_inv s1 \<and>
           m_entity_in_fly s1 = m_entity_in_fly s \<and> frame_countdown s1 = frame_countdown s \<and>
           tiles s1 = tiles s \<and> semaphore s1 = semaphore s \<and> shutdown s1 = shutdown s \<and>
           rendered (trace s1) = rendered (trace s) \<and> resized (trace s1) = resized (trace s) \<and>
           mset (queue s1) + mset (map load_resource (paths s1)) =
             mset q + mset (map load_resource (paths s)) \<and>
           length (queue s1) + length (paths s1) = length q + length (paths s)"
proof -
  from assms have len: "length q < QUEUE_CAPACITY" by (simp add: plugin_inv_def)
  from assms obtain s1 where s1: "popTileQueue s = Some s1" "plugin_inv s1"
    using popTileQueue_inv [of s] by auto
  show ?thesis
  proof (cases "paths s = []")
    case True
    with assms(2) s1 show ?thesis
      by (auto simp: popTileQueue_empty_paths)
  next
    case False
    then obtain ps p where ps: "paths s = ps @ [p]" by (metis rev_exhaust)
    from popTileQueue_refill [OF assms(2) len ps] s1
    show ?thesis using ps
      by (auto simp: rendered_append resized_append)
  qed
qed


lemma Resource_eq: "\<lparr>getType = getType r, getPath = getPath r\<rparr> = (r :: Resource)"
  by simp

lemma update_takes_front:
  assumes inv: "plugin_inv s" and idle: "in_flight s = 0"
    and coop: "getScene e" "getPlugin e" "ready_for e r"
    and q: "queue s = r # q"
  shows "\<exists>s2. update e s = Some s2 \<and> plugin_inv s2 \<and>
           frame_countdown s2 = 2 \<and> \<not> isValid (m_entity_in_fly s2) \<and>
           tiles s2 = tiles s \<and> semaphore s2 = semaphore s \<and> shutdown s2 = shutdown s \<and>
           rendered (trace s2) = rendered (trace s) @ [r] \<and>
           resized (trace s2) = resized (trace s) \<and>
           mset (queue s2) + mset (map load_resource (paths s2)) =
             mset q + mset (map load_resource (paths s)) \<and>
           length (queue s2) + length (paths s2) = length q + length (paths s)"
proof -
  from idle have cd: "\<not> 0 \<le> frame_countdown s" and nv: "\<not> isValid (m_entity_in_fly s)"
    by (auto simp: in_flight_def split: if_splits)
  from coop have env: "getScene e" "getPlugin e" "\<not> isFailure e r" "isReady e r"
    by (simp_all add: ready_for_def isFailure_def isReady_def)
  from inv q have ty: "getType r = Model_TYPE \<or> getType r = PrefabResource_TYPE"
    by (simp add: plugin_inv_def)
  from popTileQueue_conserves [OF inv q] obtain s1 where s1: "popTileQueue s = Some s1"
    "plugin_inv s1" "m_entity_in_fly s1 = m_entity_in_fly s"
    "frame_countdown s1 = frame_countdown s" "tiles s1 = tiles s" "semaphore s1 = semaphore s"
    "shutdown s1 = shutdown s" "rendered (trace s1) = rendered (trace s)"
    "resized (trace s1) = resized (trace s)"
    "mset (queue s1) + mset (map load_resource (paths s1)) =
       mset q + mset (map load_resource (paths s))"
    "length (queue s1) + length (paths s1) = length q + length (paths s)"
    by blast
  show ?thesis
  proof (cases "getType r = Model_TYPE")
    case True
    have upd: "update e s = Some (renderTile_Model e r s1)"
      using cd nv q env s1(1) True by (simp add: update_def queue_front_def)
    have r: "\<lparr>getType = Model_TYPE, getPath = getPath r\<rparr> = r"
      using True Resource_eq [of r] by simp
    have "plugin_inv (renderTile_Model e r s1)"
      using s1 nv by (simp add: renderTile_Model_inv)
    then show ?thesis
      using upd s1 nv r
      by (simp add: renderTile_Model_renders [OF env(1,2)] rendered_append resized_append)
  next
    case False
    with ty have pf: "getType r = PrefabResource_TYPE" by simp
    have upd: "update e s = Some (renderTile_Prefab e r s1)"
      using cd nv q env s1(1) pf by (simp add: update_def queue_front_def)
    from coop(3) pf obtain m where m: "instantiates e r" "hasComponent e r"
      "getModelInstanceModel e r = Some m" "isReady e m"
      by (auto simp: ready_for_def isReady_def split: option.splits)
    have "plugin_inv (renderTile_Prefab e r s1)"
      using s1 cd by (simp add: renderTile_Prefab_inv)
    then show ?thesis
      using upd s1
      by (simp add: renderTile_Prefab_renders [OF env(1,2) m] rendered_append resized_append
          INVALID_ENTITY_def isValid_def)
  qed
qed

lemma update_drains:
  assumes inv: "plugin_inv s" and cd: "0 \<le> frame_countdown s"
  shows "\<exists>s'. update e s = Some s' \<and> plugin_inv s' \<and>
           frame_countdown s' = frame_countdown s - 1 \<and>
           m_entity_in_fly s' = m_entity_in_fly s \<and>
           tiles s' = tiles s \<and> semaphore s' = semaphore s \<and> shutdown s' = shutdown s \<and>
           rendered (trace s') = rendered (trace s) \<and> resized (trace s') = resized (trace s) \<and>
           queue s' = queue s \<and> paths s' = paths s"
proof -
  from update_inv [OF inv, of e] obtain s' where s': "update e s = Some s'" "plugin_inv s'"
    by blast
  show ?thesis
  proof (cases "frame_countdown s = 0")
    case True
    from update_finalize [OF True, of e] s' show ?thesis
      using True by (auto simp: rendered_append resized_append)
  next
    case False
    with cd have "0 < frame_countdown s" by simp
    from update_countdown [OF this, of e] s' show ?thesis by auto
  qed
qed

lemma run_four_updates:
  assumes inv: "plugin_inv s" and idle: "in_flight s = 0"
    and coop: "getScene e" "getPlugin e" "ready_for e r"
    and q: "queue s = r # q"
  shows "\<exists>s'. run (replicate 4 (Update e)) s = Some s' \<and> plugin_inv s' \<and> in_flight s' = 0 \<and>
           tiles s' = tiles s \<and> semaphore s' = semaphore s \<and> shutdown s' = shutdown s \<and>
           rendered (trace s') = rendered (trace s) @ [r] \<and>
           resized (trace s') = resized (trace s) \<and>
           mset (queue s') + mset (map load_resource (paths s')) =
             mset q + mset (map load_resource (paths s)) \<and>
           length (queue s') + length (paths s') = length q + length (paths s)"
proof -
  from update_takes_front [OF inv idle coop q] obtain s2 where s2: "update e s = Some s2"
    "plugin_inv s2" "frame_countdown s2 = 2" "\<not> isValid (m_entity_in_fly s2)"
    "tiles s2 = tiles s" "semaphore s2 = semaphore s" "shutdown s2 = shutdown s"
    "rendered (trace s2) = rendered (trace s) @ [r]" "resized (trace s2) = resized (trace s)"
    "mset (queue s2) + mset (map load_resource (paths s2)) =
       mset q + mset (map load_resource (paths s))"
    "length (queue s2) + length (paths s2) = length q + length (paths s)"
    by blast
  from update_drains [OF s2(2), of e] s2(3) obtain s3 where s3: "update e s2 = Some s3"
    "plugin_inv s3" "frame_countdown s3 = 1" "m_entity_in_fly s3 = m_entity_in_fly s2"
    "tiles s3 = tiles s2" "semaphore s3 = semaphore s2" "shutdown s3 = shutdown s2"
    "rendered (trace s3) = rendered (trace s2)" "resized (trace s3) = resized (trace s2)"
    "queue s3 = queue s2" "paths s3 = paths s2"
    by auto
  from update_drains [OF s3(2), of e] s3(3) obtain s4 where s4: "update e s3 = Some s4"
    "plugin_inv s4" "frame_countdown s4 = 0" "m_entity_in_fly s4 = m_entity_in_fly s3"
    "tiles s4 = tiles s3" "semaphore s4 = semaphore s3" "shutdown s4 = shutdown s3"
    "rendered (trace s4) = rendered (trace s3)" "resized (trace s4) = resized (trace s3)"
    "queue s4 = queue s3" "paths s4 = paths s3"
    by auto
  from update_drains [OF s4(2), of e] s4(3) obtain s5 where s5: "update e s4 = Some s5"
    "plugin_inv s5" "frame_countdown s5 = - 1" "m_entity_in_fly s5 = m_entity_in_fly s4"
    "tiles s5 = tiles s4" "semaphore s5 = semaphore s4" "shutdown s5 = shutdown s4"
    "rendered (trace s5) = rendered (trace s4)" "resized (trace s5) = resized (trace s4)"
    "queue s5 = queue s4" "paths s5 = paths s4"
    by auto
  have "run (replicate 4 (Update e)) s = Some s5"
    using s2(1) s3(1) s4(1) s5(1) by (simp add: eval_nat_numeral)
  moreover have "in_flight s5 = 0"
    using s5 s4 s3 s2 by (simp add: in_flight_def)
  ultimately show ?thesis
    using s2 s3 s4 s5 by simp
qed


lemma run_updates_drain:
  assumes env: "getScene e" "getPlugin e"
  shows "plugin_inv s \<Longrightarrow> in_flight s = 0 \<Longrightarrow> length (queue s) + length (paths s) = n \<Longrightarrow>
         \<forall>r \<in># waiting s. ready_for e r \<Longrightarrow>
         \<exists>s'. run (replicate (4 * n) (Update e)) s = Some s' \<and> plugin_inv s' \<and>
           in_flight s' = 0 \<and> queue s' = [] \<and> paths s' = [] \<and>
           tiles s' = tiles s \<and> semaphore s' = semaphore s \<and> shutdown s' = shutdown s \<and>
           mset (rendered (trace s')) =
             mset (rendered (trace s)) + mset (queue s) + mset (map load_resource (paths s)) \<and>
           resized (trace s') = resized (trace s)"
proof (induction n arbitrary: s)
  case 0
  then show ?case by simp
next
  case (Suc n)
  have "queue s \<noteq> []"
  proof
    assume "queue s = []"
    with Suc.prems(1) have "paths s = []" by (auto simp: plugin_inv_def QUEUE_CAPACITY_def)
    with \<open>queue s = []\<close> Suc.prems(3) show False by simp
  qed
  then obtain r q where q: "queue s = r # q" by (cases "queue s") auto
  have rdy: "ready_for e r"
    using Suc.prems(4) q by (simp add: waiting_def)
  from run_four_updates [OF Suc.prems(1,2) env rdy q] obtain s1 where
    s1: "run (replicate 4 (Update e)) s = Some s1" "plugin_inv s1" "in_flight s1 = 0"
      "tiles s1 = tiles s" "semaphore s1 = semaphore s" "shutdown s1 = shutdown s"
      "rendered (trace s1) = rendered (trace s) @ [r]" "resized (trace s1) = resized (trace s)"
      "mset (queue s1) + mset (map load_resource (paths s1)) =
         mset q + mset (map load_resource (paths s))"
      "length (queue s1) + length (paths s1) = length q + length (paths s)"
    by blast
  from s1(10) q Suc.prems(3) have "length (queue s1) + length (paths s1) = n" by simp
  moreover have "\<forall>r \<in># waiting s1. ready_for e r"
    using Suc.prems(4) s1(9) q by (simp add: waiting_def)
  ultimately obtain s' where
    s': "run (replicate (4 * n) (Update e)) s1 = Some s'" "plugin_inv s'" "in_flight s' = 0"
      "queue s' = []" "paths s' = []" "tiles s' = tiles s1" "semaphore s' = semaphore s1"
      "shutdown s' = shutdown s1"
      "mset (rendered (trace s')) =
         mset (rendered (trace s1)) + mset (queue s1) + mset (map load_resource (paths s1))"
      "resized (trace s') = resized (trace s1)"
    using Suc.IH [OF s1(2,3)] by blast
  have "replicate (4 * Suc n) (Update e) = replicate 4 (Update e) @ replicate (4 * n) (Update e)"
    by (simp add: replicate_add [symmetric])
  then have "run (replicate (4 * Suc n) (Update e)) s = Some s'"
    using s1(1) s'(1) by (simp add: run_append)
  moreover have "mset (rendered (trace s')) =
      mset (rendered (trace s)) + mset (queue s) + mset (map load_resource (paths s))"
    using s'(9) s1(7) s1(9) q by (simp add: add.assoc)
  ultimately show ?case
    using s' s1 by simp
qed


lemma texture_tile_frame:
  "\<exists>F evs. texture_tile e tile s = s\<lparr>files := F, trace := trace s @ evs\<rparr> \<and>
     rendered evs = [] \<and> resized evs = [tile]"
proof -
  have sv: "\<exists>F evs. save_resized e p d s' = s'\<lparr>files := F, trace := trace s' @ evs\<rparr> \<and>
      rendered evs = [] \<and> resized evs = []" for p d s'
  proof -
  have fin: "save_resized e p d s' = s'\<lparr>files := F, trace := trace s' @ evs\<rparr> \<Longrightarrow>
      rendered evs = [] \<Longrightarrow> resized evs = [] \<Longrightarrow> ?thesis" for F evs
    by blast
  show ?thesis
  proof (cases "crn_compress e d")
    case None
    then have "save_resized e p d s' =
        s'\<lparr>files := files s', trace := trace s' @ [CrnCompress False, LogError (''Failed to save '' @ p)]\<rparr>"
      by (simp add: save_resized_def saveAsDDS_def log_error_def)
    then show ?thesis by (rule fin) simp_all
  next
    case (Some block)
    show ?thesis
    proof (cases "open_CREATE_AND_WRITE e p")
      case True
      with Some have "save_resized e p d s' =
          s'\<lparr>files := (files s')(p \<mapsto> block), trace := trace s' @ [CrnCompress True]\<rparr>"
        by (simp add: save_resized_def saveAsDDS_def log_error_def)
      then show ?thesis by (rule fin) simp_all
    next
      case False
      with Some have "save_resized e p d s' =
          s'\<lparr>files := files s',
             trace := trace s' @ [CrnCompress True, LogError (''Failed to save '' @ p)]\<rparr>"
        by (simp add: save_resized_def saveAsDDS_def log_error_def)
      then show ?thesis by (rule fin) simp_all
    qed
  qed
  qed
  have fin: "texture_tile e tile s = s\<lparr>files := F, trace := trace s @ evs\<rparr> \<Longrightarrow>
      rendered evs = [] \<Longrightarrow> resized evs = [tile] \<Longrightarrow> ?thesis" for F evs
    by blast
  have cp: "\<exists>F. snd (copyFile a b s') = s'\<lparr>files := F\<rparr>" for a b s'
  proof (cases "files s' a")
    case None
    then have "snd (copyFile a b s') = s'\<lparr>files := files s'\<rparr>" by (simp add: copyFile_def)
    then show ?thesis by blast
  next
    case (Some c)
    then have "snd (copyFile a b s') = s'\<lparr>files := (files s')(b \<mapsto> c)\<rparr>"
      by (simp add: copyFile_def)
    then show ?thesis by blast
  qed
  let ?out = "tile_path (crc32 e tile)"
  show ?thesis
  proof (cases "hasExtension tile ''dds''")
    case dds: True
    show ?thesis
    proof (cases "files s tile")
      case None
      from cp [of "''models/editor/tile_texture.dds''" ?out
          "s\<lparr>trace := trace s @ [OpenRead tile False]\<rparr>"]
      obtain F where "snd (copyFile ''models/editor/tile_texture.dds'' ?out
          (s\<lparr>trace := trace s @ [OpenRead tile False]\<rparr>)) =
          s\<lparr>trace := trace s @ [OpenRead tile False], files := F\<rparr>"
        by auto
      with dds None have "texture_tile e tile s =
          s\<lparr>files := F,
            trace := trace s @ [OpenRead tile False, LogError (''Failed to load '' @ tile)]\<rparr>"
        by (simp add: texture_tile_def log_error_def)
      then show ?thesis by (rule fin) simp_all
    next
      case (Some content)
      show ?thesis
      proof (cases "crn_decompress_dds_to_images e content")
        case None
        from cp [of "''models/editor/tile_texture.dds''" ?out
            "s\<lparr>trace := trace s @ [OpenRead tile True]\<rparr>"]
        obtain F where "snd (copyFile ''models/editor/tile_texture.dds'' ?out
            (s\<lparr>trace := trace s @ [OpenRead tile True]\<rparr>)) =
            s\<lparr>trace := trace s @ [OpenRead tile True], files := F\<rparr>"
          by auto
        with dds Some None have "texture_tile e tile s =
            s\<lparr>files := F, trace := trace s @ [OpenRead tile True]\<rparr>"
          by (simp add: texture_tile_def)
        then show ?thesis by (rule fin) simp_all
      next
        case img: (Some img)
        from sv [of ?out "stbir_resize_uint8 e img" "s\<lparr>trace := trace s @ [OpenRead tile True]\<rparr>"]
        obtain F evs where "save_resized e ?out (stbir_resize_uint8 e img)
            (s\<lparr>trace := trace s @ [OpenRead tile True]\<rparr>) =
            s\<lparr>files := F, trace := trace s @ OpenRead tile True # evs\<rparr>"
          "rendered evs = []" "resized evs = []"
          by auto
        with dds Some img have "texture_tile e tile s =
            s\<lparr>files := F, trace := trace s @ OpenRead tile True # evs\<rparr> \<and>
            rendered (OpenRead tile True # evs) = [] \<and> resized (OpenRead tile True # evs) = [tile]"
          by (simp add: texture_tile_def)
        then show ?thesis by (elim conjE) (rule fin)
      qed
    qed
  next
    case nodds: False
    show ?thesis
    proof (cases "Option.bind (files s tile) (stbi_load e)")
      case None
      from cp [of "''models/editor/tile_texture.dds''" ?out
          "s\<lparr>trace := trace s @ [StbiLoad tile False, LogError (''Failed to load '' @ tile)]\<rparr>"]
      obtain F where "snd (copyFile ''models/editor/tile_texture.dds'' ?out
          (s\<lparr>trace := trace s @ [StbiLoad tile False, LogError (''Failed to load '' @ tile)]\<rparr>)) =
          s\<lparr>trace := trace s @ [StbiLoad tile False, LogError (''Failed to load '' @ tile)],
            files := F\<rparr>"
        by auto
      with nodds None have "texture_tile e tile s =
          s\<lparr>files := F,
            trace := trace s @ [StbiLoad tile False, LogError (''Failed to load '' @ tile)]\<rparr>"
        by (simp add: texture_tile_def log_error_def)
      then show ?thesis by (rule fin) simp_all
    next
      case img: (Some img)
      from sv [of ?out "stbir_resize_uint8 e img" "s\<lparr>trace := trace s @ [StbiLoad tile True]\<rparr>"]
      obtain F evs where "save_resized e ?out (stbir_resize_uint8 e img)
          (s\<lparr>trace := trace s @ [StbiLoad tile True]\<rparr>) =
          s\<lparr>files := F, trace := trace s @ StbiLoad tile True # evs\<rparr>"
        "rendered evs = []" "resized evs = []"
        by auto
      with nodds img have "texture_tile e tile s =
          s\<lparr>files := F, trace := trace s @ StbiLoad tile True # evs\<rparr> \<and>
          rendered (StbiLoad tile True # evs) = [] \<and> resized (StbiLoad tile True # evs) = [tile]"
        by (simp add: texture_tile_def)
      then show ?thesis by (elim conjE) (rule fin)
    qed
  qed
qed


lemma tile_task_pass_frame:
  assumes inv: "plugin_inv s" and run: "\<not> shutdown s" and sem: "semaphore s = length (tiles s)"
    and ts: "tiles s = ts @ [t]"
  shows "\<exists>s'. step (TileTaskPass e) s = Some s' \<and> plugin_inv s' \<and> \<not> shutdown s' \<and>
           semaphore s' = length (tiles s') \<and> tiles s' = ts \<and>
           queue s' = queue s \<and> paths s' = paths s \<and> in_flight s' = in_flight s \<and>
           rendered (trace s') = rendered (trace s) \<and>
           resized (trace s') = resized (trace s) @ [t]"
proof -
  let ?s1 = "s\<lparr>semaphore := semaphore s - 1, tiles := ts\<rparr>"
  have pass: "tile_task_pass e s = Some (Continue, texture_tile e t ?s1)"
    using run sem ts by (simp add: tile_task_pass_def Let_def array_back_def array_pop_def)
  from tile_task_pass_inv [OF inv, of e] pass have "plugin_inv (texture_tile e t ?s1)"
    by simp
  moreover from texture_tile_frame [of e t ?s1] obtain F evs where
    "texture_tile e t ?s1 = ?s1\<lparr>files := F, trace := trace ?s1 @ evs\<rparr>"
    "rendered evs = []" "resized evs = [t]"
    by blast
  ultimately show ?thesis
    using pass run sem ts by (simp add: in_flight_def rendered_append resized_append)
qed



lemma copyFile_frame: "\<exists>F. snd (copyFile a b s) = s\<lparr>files := F\<rparr>"
proof (cases "files s a")
  case None
  then have "snd (copyFile a b s) = s\<lparr>files := files s\<rparr>" by (simp add: copyFile_def)
  then show ?thesis by blast
next
  case (Some c)
  then have "snd (copyFile a b s) = s\<lparr>files := (files s)(b \<mapsto> c)\<rparr>"
    by (simp add: copyFile_def)
  then show ?thesis by blast
qed


lemma images_append_one: "images (x # reqs) = images [x] @ images reqs"
  by (cases x) simp

lemma renderables_append_one: "renderables (x # reqs) = renderables [x] @ renderables reqs"
  by (cases x) simp



subsection \<open>The loop of the worker, and requests in executions of any order\<close>

lemma run_prefab_waiting:
  "run [CreateTile ''p.fab'' [] PrefabResource_TYPE, Update env_loading]
     (new_ModelPlugin Map.empty) = Some prefab_waiting"
  by (simp add: prefab_waiting_def env_loading_def plugin_defs)

lemma tile_task_pass_Continue:
  assumes "plugin_inv s" "\<not> shutdown s" "semaphore s = length (tiles s)" "tiles s = ts @ [t]"
  shows "\<exists>s'. tile_task_pass e s = Some (Continue, s') \<and> plugin_inv s' \<and> \<not> shutdown s' \<and>
           semaphore s' = length (tiles s') \<and> tiles s' = ts \<and>
           resized (trace s') = resized (trace s) @ [t]"
proof -
  from tile_task_pass_frame [OF assms, of e] obtain s' where
    s': "step (TileTaskPass e) s = Some s'" "plugin_inv s'" "\<not> shutdown s'"
      "semaphore s' = length (tiles s')" "tiles s' = ts"
      "resized (trace s') = resized (trace s) @ [t]"
    by blast
  have "tile_task_pass e s = Some (Continue, texture_tile e t (s\<lparr>semaphore := semaphore s - 1, tiles := ts\<rparr>))"
    using assms by (simp add: tile_task_pass_def Let_def array_back_def array_pop_def)
  with s' show ?thesis by auto
qed

lemma createTextureTileTask_drains:
  "plugin_inv s \<Longrightarrow> \<not> shutdown s \<Longrightarrow> semaphore s = length (tiles s) \<Longrightarrow> length (tiles s) = k \<Longrightarrow>
   \<exists>s'. createTextureTileTask e s = Some s' \<and> tiles s' = [] \<and> semaphore s' = 0 \<and>
     resized (trace s') = resized (trace s) @ rev (tiles s)"
proof (induction k arbitrary: s)
  case 0
  then show ?case
    by (subst createTextureTileTask.simps) (simp add: tile_task_pass_def)
next
  case (Suc k)
  then have "tiles s \<noteq> []" by auto
  then obtain ts t where ts: "tiles s = ts @ [t]" by (metis rev_exhaust)
  from tile_task_pass_Continue [OF Suc.prems(1,2,3) ts, of e] obtain s1 where
    s1: "tile_task_pass e s = Some (Continue, s1)" "plugin_inv s1" "\<not> shutdown s1"
      "semaphore s1 = length (tiles s1)" "tiles s1 = ts"
      "resized (trace s1) = resized (trace s) @ [t]"
    by blast
  from s1(5) ts Suc.prems(4) have "length (tiles s1) = k" by simp
  from Suc.IH [OF s1(2,3,4) this] obtain s' where
    s': "createTextureTileTask e s1 = Some s'" "tiles s' = []" "semaphore s' = 0"
      "resized (trace s') = resized (trace s1) @ rev (tiles s1)"
    by blast
  have "createTextureTileTask e s = Some s'"
    using s1(1) s'(1) by (subst createTextureTileTask.simps) simp
  with s' s1 ts show ?case by simp
qed


lemma renderTile_Prefab_rendered:
  assumes "getScene e" "getPlugin e"
  shows "rendered (trace (renderTile_Prefab e r s)) = rendered (trace s) @ [r] \<and>
         queue (renderTile_Prefab e r s) = queue s \<and> paths (renderTile_Prefab e r s) = paths s"
  using assms
  by (simp add: renderTile_Prefab_def instantiatePrefab_def renderPrefabSecondStage_def Let_def
      rendered_append split: option.split)

lemma renderPrefabSecondStage_rendered:
  "rendered (trace (renderPrefabSecondStage e m s)) = rendered (trace s) \<and>
   queue (renderPrefabSecondStage e m s) = queue s \<and>
   paths (renderPrefabSecondStage e m s) = paths s"
  by (simp add: renderPrefabSecondStage_def Let_def rendered_append)

lemma update_conserves:
  assumes inv: "plugin_inv s" and env: "getScene e" "getPlugin e" "\<forall>r. getState e r \<noteq> FAILURE"
    and upd: "update e s = Some s'"
  shows "mset (rendered (trace s')) + waiting s' = mset (rendered (trace s)) + waiting s"
proof (cases "0 \<le> frame_countdown s")
  case True
  from update_drains [OF inv True, of e] upd show ?thesis
    by (auto simp: waiting_def)
next
  case cd: False
  show ?thesis
  proof (cases "isValid (m_entity_in_fly s) \<or> queue s = []")
    case True
    with cd upd show ?thesis by (auto simp: update_def split: if_splits)
  next
    case False
    then obtain r q where q: "queue s = r # q" by (cases "queue s") auto
    have nf: "\<not> isFailure e r" using env(3) by (simp add: isFailure_def)
    show ?thesis
    proof (cases "isReady e r")
      case False
      with cd \<open>\<not> (isValid (m_entity_in_fly s) \<or> queue s = [])\<close> q nf upd show ?thesis
        by (simp add: update_def queue_front_def)
    next
      case True
      from popTileQueue_conserves [OF inv q] obtain s1 where s1: "popTileQueue s = Some s1"
        "rendered (trace s1) = rendered (trace s)"
        "mset (queue s1) + mset (map load_resource (paths s1)) =
           mset q + mset (map load_resource (paths s))"
        by blast
      from inv q have ty: "getType r = Model_TYPE \<or> getType r = PrefabResource_TYPE"
        by (simp add: plugin_inv_def)
      have w: "waiting s = add_mset r (waiting s1)"
        using s1(3) q by (simp add: waiting_def)
      show ?thesis
      proof (cases "getType r = Model_TYPE")
        case m: True
        have r: "\<lparr>getType = Model_TYPE, getPath = getPath r\<rparr> = r"
          using m Resource_eq [of r] by simp
        have "s' = renderTile_Model e r s1"
          using upd cd False q nf True s1(1) m by (simp add: update_def queue_front_def)
        then show ?thesis
          using s1(2) w r
          by (simp add: renderTile_Model_renders [OF env(1,2)] rendered_append waiting_def)
      next
        case nm: False
        with ty have "getType r = PrefabResource_TYPE" by simp
        then have "s' = renderTile_Prefab e r s1"
          using upd cd False q nf True s1(1) by (simp add: update_def queue_front_def)
        then show ?thesis
          using s1(2) w renderTile_Prefab_rendered [OF env(1,2), of r s1]
          by (simp add: waiting_def)
      qed
    qed
  qed
qed

lemma createTile_conserves:
  assumes inv: "plugin_inv s" and c: "createTile i out t s = Some (b, s')"
  shows "mset (rendered (trace s')) + waiting s' =
         mset (rendered (trace s)) + waiting s + mset (submitted [CreateTile i out t])"
proof -
  consider (tex) "t = Texture_TYPE" | (mat) "t = Material_TYPE" | (sha) "t = Shader_TYPE"
    | (mod) "t = Model_TYPE \<or> t = PrefabResource_TYPE" | (other) n where "t = Other_TYPE n"
    by (cases t) auto
  then show ?thesis
  proof cases
    case tex
    with c show ?thesis by (auto simp: createTile_Texture waiting_def)
  next
    case mat
    from copyFile_frame [of "''models/editor/tile_material.dds''" out s] obtain F where
      "snd (copyFile ''models/editor/tile_material.dds'' out s) = s\<lparr>files := F\<rparr>" by blast
    with mat c show ?thesis by (auto simp: createTile_def waiting_def)
  next
    case sha
    from copyFile_frame [of "''models/editor/tile_shader.dds''" out s] obtain F where
      "snd (copyFile ''models/editor/tile_shader.dds'' out s) = s\<lparr>files := F\<rparr>" by blast
    with sha c show ?thesis by (auto simp: createTile_def waiting_def)
  next
    case mod
    show ?thesis
    proof (cases "queue_full (queue s)")
      case True
      from createTile_overflow [OF True mod, of i out] c mod show ?thesis
        by (auto simp: waiting_def)
    next
      case False
      with inv have "length (queue s) < QUEUE_CAPACITY"
        by (simp add: plugin_inv_def queue_full_def)
      from createTile_push [OF this mod, of i out] c mod show ?thesis
        by (auto simp: waiting_def rendered_append)
    qed
  next
    case other
    with c show ?thesis by (auto simp: createTile_unrecognized waiting_def)
  qed
qed

lemma tile_task_pass_conserves:
  assumes "tile_task_pass e s = Some (c, s')"
  shows "rendered (trace s') = rendered (trace s) \<and> waiting s' = waiting s"
proof (cases "shutdown s \<or> semaphore s = 0 \<or> tiles s = []")
  case True
  with assms show ?thesis
    by (auto simp: tile_task_pass_def Let_def array_back_def split: if_splits)
next
  case False
  let ?s1 = "s\<lparr>semaphore := semaphore s - 1, tiles := array_pop (tiles s)\<rparr>"
  from texture_tile_frame [of e "last (tiles s)" ?s1] obtain F evs where
    "texture_tile e (last (tiles s)) ?s1 = ?s1\<lparr>files := F, trace := trace ?s1 @ evs\<rparr>"
    "rendered evs = []"
    by blast
  with False assms show ?thesis
    by (auto simp: tile_task_pass_def Let_def array_back_def waiting_def rendered_append)
qed

lemma step_conserves:
  assumes inv: "plugin_inv s" and ok: "no_failure [x]" and st: "step x s = Some s'"
  shows "mset (rendered (trace s')) + waiting s' =
         mset (rendered (trace s)) + waiting s + mset (submitted [x])"
proof (cases x)
  case (CreateTile i out t)
  with st obtain b where "createTile i out t s = Some (b, s')" by auto
  from createTile_conserves [OF inv this] CreateTile show ?thesis by simp
next
  case (Update e)
  with ok st update_conserves [OF inv, of e s'] show ?thesis by simp
next
  case (ModelStateChanged e m)
  with st renderPrefabSecondStage_rendered [of e m s] show ?thesis
    by (auto simp: waiting_def split: if_splits)
next
  case (TileTaskPass e)
  with st obtain c where "tile_task_pass e s = Some (c, s')" by auto
  from tile_task_pass_conserves [OF this] TileTaskPass show ?thesis by simp
next
  case Shutdown
  with st show ?thesis by (auto simp: request_shutdown_def waiting_def)
qed

lemma submitted_Cons: "submitted (x # xs) = submitted [x] @ submitted xs"
  by (cases x) simp_all

lemma no_failure_Cons: "no_failure (x # xs) = (no_failure [x] \<and> no_failure xs)"
  by (cases x) simp_all

lemma requests_conserved:
  "plugin_inv s \<Longrightarrow> no_failure xs \<Longrightarrow> run xs s = Some s' \<Longrightarrow>
   mset (rendered (trace s')) + waiting s' =
     mset (rendered (trace s)) + waiting s + mset (submitted xs)"
proof (induction xs arbitrary: s)
  case Nil
  then show ?case by simp
next
  case (Cons x xs)
  from step_inv [OF Cons.prems(1), of x] obtain s1 where s1: "step x s = Some s1" "plugin_inv s1"
    by blast
  from Cons.prems(2) have ok: "no_failure [x]" "no_failure xs"
    using no_failure_Cons [of x xs] by simp_all
  from Cons.prems(3) s1(1) have "run xs s1 = Some s'" by simp
  from Cons.IH [OF s1(2) ok(2) this] step_conserves [OF Cons.prems(1) ok(1) s1(1)]
  show ?case
    by (simp add: submitted_Cons [of x xs] add.assoc)
qed

lemma requests_conserved_from_start:
  assumes "no_failure xs" "run xs (new_ModelPlugin fs) = Some s"
  shows "mset (rendered (trace s)) + waiting s = mset (submitted xs)"
  using requests_conserved [OF new_ModelPlugin_inv assms]
  by (simp add: waiting_def new_ModelPlugin_def)

subsection \<open>Ticks and callbacks under changing readiness\<close>
























section \<open>The claims\<close>

subsection \<open>C1: refill of the ring from the overflow array\<close>

text \<open>
  C1, amended. When \<^verbatim>\<open>popTileQueue\<close> consumes a slot of a ring of at most 8 resources and
  the overflow array is not empty, the last element of the array, the request that
  overflowed most recently, is removed and its resource is loaded and pushed behind the
  resources in the ring. So \<open>n\<close> consecutive calls remove the \<open>n\<close> oldest resources of the ring
  extended by the \<open>n\<close> newest overflowed requests, newest first: the ring is first in, first
  out, the overflow array is last in, first out.
\<close>

theorem overflow_admitted_newest_first:
  assumes "queue s \<noteq> []" "length (queue s) \<le> QUEUE_CAPACITY" "n \<le> length (paths s)"
  shows "\<exists>s'. pops n s = Some s' \<and>
           queue s' = drop n (queue s @ map load_resource (take n (rev (paths s)))) \<and>
           paths s' = take (length (paths s) - n) (paths s)"
  using assms
proof (induction n arbitrary: s)
  case 0
  then show ?case by simp
next
  case (Suc n)
  then have ne: "paths s \<noteq> []" by auto
  let ?p = "last (paths s)"
  let ?s1 = "s\<lparr>queue := tl (queue s) @ [load_resource ?p], paths := butlast (paths s),
      trace := trace s @ [ManagerLoad (getType (load_resource ?p)) ?p]\<rparr>"
  have pop: "popTileQueue s = Some ?s1"
    using Suc.prems ne by (simp add: popTileQueue_step)
  have "queue ?s1 \<noteq> []" "length (queue ?s1) \<le> QUEUE_CAPACITY" "n \<le> length (paths ?s1)"
    using Suc.prems by auto
  from Suc.IH [OF this] obtain s' where s': "pops n ?s1 = Some s'"
    "queue s' = drop n (queue ?s1 @ map load_resource (take n (rev (paths ?s1))))"
    "paths s' = take (length (paths ?s1) - n) (paths ?s1)"
    by blast
  have rv: "rev (paths s) = ?p # rev (butlast (paths s))"
    using ne by (metis append_butlast_last_id rev.simps(2) rev_rev_ident rev_swap)
  obtain r q where q: "queue s = r # q" using Suc.prems(1) by (cases "queue s") auto
  have "queue s' = drop (Suc n) (queue s @ map load_resource (take (Suc n) (rev (paths s))))"
    using s'(2) q by (simp add: rv)
  moreover have "paths s' = take (length (paths s) - Suc n) (paths s)"
    using s'(3) by (simp add: butlast_conv_take)
  ultimately show ?case using pop s'(1) by simp
qed


lemma run_ten_requests: "run ten_requests (new_ModelPlugin Map.empty) = Some overflowing"
  by (simp add: ten_requests_def overflowing_def plugin_defs)

theorem overflow_admitted_newest_first_witness:
  "queue overflowing \<noteq> [] \<and> length (queue overflowing) \<le> QUEUE_CAPACITY \<and>
   2 \<le> length (paths overflowing) \<and>
   map_option queue (pops 2 overflowing) =
     Some (map load_resource
       [''3.msh'', ''4.msh'', ''5.msh'', ''6.msh'', ''7.msh'', ''8.msh'', ''B.msh'', ''A.msh'']) \<and>
   map_option paths (pops 2 overflowing) = Some []"
  using overflow_admitted_newest_first [of overflowing 2]
  by (auto simp add: overflowing_def QUEUE_CAPACITY_def new_ModelPlugin_def)

text \<open>
  The claim as stated (the oldest overflowed request is admitted first) fails: after
  eight requests that fill the ring, \<open>A.msh\<close> overflows before \<open>B.msh\<close>; the first slot that
  is consumed, by \<^verbatim>\<open>popTileQueue\<close> alone or by a tick, admits \<open>B.msh\<close> and leaves \<open>A.msh\<close>
  in the overflow array.
\<close>

theorem overflow_fifo_counterexample:
  "run ten_requests (new_ModelPlugin Map.empty) = Some overflowing \<and>
   paths overflowing = [''A.msh'', ''B.msh''] \<and>
   map_option queue (popTileQueue overflowing) =
     Some (map load_resource
       [''2.msh'', ''3.msh'', ''4.msh'', ''5.msh'', ''6.msh'', ''7.msh'', ''8.msh'', ''B.msh'']) \<and>
   map_option paths (popTileQueue overflowing) = Some [''A.msh''] \<and>
   map_option queue (run (ten_requests @ [Update env_ready]) (new_ModelPlugin Map.empty)) =
     Some (map load_resource
       [''2.msh'', ''3.msh'', ''4.msh'', ''5.msh'', ''6.msh'', ''7.msh'', ''8.msh'', ''B.msh'']) \<and>
   map_option paths (run (ten_requests @ [Update env_ready]) (new_ModelPlugin Map.empty)) =
     Some [''A.msh'']"
proof -
  have pop: "map_option queue (popTileQueue overflowing) =
      Some (map load_resource
        [''2.msh'', ''3.msh'', ''4.msh'', ''5.msh'', ''6.msh'', ''7.msh'', ''8.msh'', ''B.msh''])"
    "map_option paths (popTileQueue overflowing) = Some [''A.msh'']"
    by (simp_all add: overflowing_def plugin_defs)
  have upd: "map_option queue (update env_ready overflowing) =
      Some (map load_resource
        [''2.msh'', ''3.msh'', ''4.msh'', ''5.msh'', ''6.msh'', ''7.msh'', ''8.msh'', ''B.msh''])"
    "map_option paths (update env_ready overflowing) = Some [''A.msh'']"
    by (simp_all add: overflowing_def plugin_defs)
  have r: "run (ten_requests @ [Update env_ready]) (new_ModelPlugin Map.empty) =
      update env_ready overflowing"
    by (simp add: run_append run_ten_requests split: option.split)
  have p: "paths overflowing = [''A.msh'', ''B.msh'']"
    by (simp add: overflowing_def)
  show ?thesis
    unfolding r by (simp only: run_ten_requests p pop upd simp_thms)
qed

subsection \<open>C2: the frame delay\<close>

text \<open>
  C2, amended. When the read-back has been issued and the countdown is 2, the next two
  ticks lower the countdown to 1 and to 0 and do nothing else; the tick after them, on
  which the countdown goes from 0 to \<open>- 1\<close>, is the finalize step: it compresses the pixel
  data, writes the cache file when the compressor and the file allow it, and destroys the
  read-back texture.
\<close>

theorem finalize_on_third_tick:
  assumes "frame_countdown s = 2"
  shows "update e1 s = Some (s\<lparr>frame_countdown := 1\<rparr>) \<and>
         update e2 (s\<lparr>frame_countdown := 1\<rparr>) = Some (s\<lparr>frame_countdown := 0\<rparr>) \<and>
         update e3 (s\<lparr>frame_countdown := 0\<rparr>) =
           Some (s\<lparr>frame_countdown := - 1,
                   files := (case crn_compress e3 (data s) of
                               None \<Rightarrow> files s
                             | Some block \<Rightarrow>
                                 if open_CREATE_AND_WRITE e3 (tile_path (path_hash s))
                                 then (files s)(tile_path (path_hash s) \<mapsto> block) else files s),
                   trace := trace s @
                     [CrnCompress (crn_compress e3 (data s) \<noteq> None),
                      DestroyTexture (texture s)]\<rparr>)"
  using assms by (simp add: update_countdown update_finalize split: option.split)

theorem finalize_on_third_tick_witness:
  "frame_countdown draining = 2 \<and>
   update env_ready draining = Some (draining\<lparr>frame_countdown := 1\<rparr>) \<and>
   update env_ready (draining\<lparr>frame_countdown := 1\<rparr>) = Some (draining\<lparr>frame_countdown := 0\<rparr>) \<and>
   update env_ready (draining\<lparr>frame_countdown := 0\<rparr>) =
     Some (draining\<lparr>frame_countdown := - 1,
             files := [''.lumix/asset_tiles/5.dds'' \<mapsto> [0, 1, 2, 3, 4]],
             trace := trace draining @ [CrnCompress True, DestroyTexture (Some 0)]\<rparr>)"
  using finalize_on_third_tick [of draining env_ready env_ready env_ready]
  by (simp add: draining_def plugin_defs toCString.simps)

text \<open>
  The claim as stated (finalize on the tick on which the countdown reaches 0) fails: two
  ticks after the tick that rendered \<open>a.msh\<close> the countdown is 0 and the trace is the one
  of the render step; the compressor runs on the tick after.
\<close>

theorem finalize_at_zero_counterexample:
  "map_option frame_countdown
     (run [CreateTile ''a.msh'' [] Model_TYPE, Update env_ready, Update env_ready, Update env_ready]
        (new_ModelPlugin Map.empty)) = Some 0 \<and>
   map_option trace
     (run [CreateTile ''a.msh'' [] Model_TYPE, Update env_ready, Update env_ready, Update env_ready]
        (new_ModelPlugin Map.empty)) =
     Some [ManagerLoad Model_TYPE ''a.msh'', CreateEntity 2, SetModelInstancePath 2 ''a.msh'',
           PipelineRender, CreateTexture2D 0, Blit 0, ReadTexture 0, DestroyEntity 2,
           ManagerUnload (load_resource ''a.msh'')] \<and>
   map_option trace
     (run [CreateTile ''a.msh'' [] Model_TYPE, Update env_ready, Update env_ready, Update env_ready,
           Update env_ready]
        (new_ModelPlugin Map.empty)) =
     Some [ManagerLoad Model_TYPE ''a.msh'', CreateEntity 2, SetModelInstancePath 2 ''a.msh'',
           PipelineRender, CreateTexture2D 0, Blit 0, ReadTexture 0, DestroyEntity 2,
           ManagerUnload (load_resource ''a.msh''), CrnCompress True, DestroyTexture (Some 0)]"
  by (simp add: plugin_defs)

subsection \<open>C3: every request is processed once\<close>












subsection \<open>C4: a failing encoder\<close>

text \<open>
  C4, amended. When \<^verbatim>\<open>saveAsDDS\<close> fails (the compressor returns no block or the file
  cannot be created), no placeholder tile is substituted on either path and the file system
  is left as it was; each path is stated for its own failing call. The worker, for an
  image decoded by stb and for a decompressed DDS alike, adds to the trace the decoding, the
  compressor call and the log line \<open>Failed to save\<close> with the cache path, and nothing else
  changes. The finalize tick of \<^verbatim>\<open>update\<close> discards the result of \<^verbatim>\<open>saveAsDDS\<close>: it
  adds the compressor call and the destruction of the read-back texture, sets the countdown
  to \<open>- 1\<close>, and nothing else changes.
\<close>

theorem encode_failure_leaves_no_tile:
  "(\<not> hasExtension tile ''dds'' \<and> Option.bind (files s tile) (stbi_load e) = Some img \<and>
    \<not> fst (saveAsDDS e (tile_path (crc32 e tile)) (stbir_resize_uint8 e img) s) \<longrightarrow>
      texture_tile e tile s =
        s\<lparr>trace := trace s @
          [StbiLoad tile True,
           CrnCompress (crn_compress e (stbir_resize_uint8 e img) \<noteq> None),
           LogError (''Failed to save '' @ tile_path (crc32 e tile))]\<rparr>) \<and>
   (hasExtension tile ''dds'' \<and> files s tile = Some content \<and>
    crn_decompress_dds_to_images e content = Some img \<and>
    \<not> fst (saveAsDDS e (tile_path (crc32 e tile)) (stbir_resize_uint8 e img) s) \<longrightarrow>
      texture_tile e tile s =
        s\<lparr>trace := trace s @
          [OpenRead tile True,
           CrnCompress (crn_compress e (stbir_resize_uint8 e img) \<noteq> None),
           LogError (''Failed to save '' @ tile_path (crc32 e tile))]\<rparr>) \<and>
   (frame_countdown s = 0 \<and> \<not> fst (saveAsDDS e (tile_path (path_hash s)) (data s) s) \<longrightarrow>
      update e s =
        Some (s\<lparr>frame_countdown := - 1,
                trace := trace s @
                  [CrnCompress (crn_compress e (data s) \<noteq> None),
                   DestroyTexture (texture s)]\<rparr>))"
proof (intro conjI impI)
  assume a: "\<not> hasExtension tile ''dds'' \<and> Option.bind (files s tile) (stbi_load e) = Some img \<and>
      \<not> fst (saveAsDDS e (tile_path (crc32 e tile)) (stbir_resize_uint8 e img) s)"
  then have "\<not> fst (saveAsDDS e (tile_path (crc32 e tile)) (stbir_resize_uint8 e img)
      (s\<lparr>trace := trace s @ [StbiLoad tile True]\<rparr>))"
    by (simp add: fst_saveAsDDS)
  from save_resized_fails [OF this] a
  show "texture_tile e tile s =
      s\<lparr>trace := trace s @
        [StbiLoad tile True, CrnCompress (crn_compress e (stbir_resize_uint8 e img) \<noteq> None),
         LogError (''Failed to save '' @ tile_path (crc32 e tile))]\<rparr>"
    by (simp add: texture_tile_def Let_def)
next
  assume a: "hasExtension tile ''dds'' \<and> files s tile = Some content \<and>
      crn_decompress_dds_to_images e content = Some img \<and>
      \<not> fst (saveAsDDS e (tile_path (crc32 e tile)) (stbir_resize_uint8 e img) s)"
  then have "\<not> fst (saveAsDDS e (tile_path (crc32 e tile)) (stbir_resize_uint8 e img)
      (s\<lparr>trace := trace s @ [OpenRead tile True]\<rparr>))"
    by (simp add: fst_saveAsDDS)
  from save_resized_fails [OF this] a
  show "texture_tile e tile s =
      s\<lparr>trace := trace s @
        [OpenRead tile True, CrnCompress (crn_compress e (stbir_resize_uint8 e img) \<noteq> None),
         LogError (''Failed to save '' @ tile_path (crc32 e tile))]\<rparr>"
    by (simp add: texture_tile_def Let_def)
next
  assume a: "frame_countdown s = 0 \<and> \<not> fst (saveAsDDS e (tile_path (path_hash s)) (data s) s)"
  then show "update e s =
      Some (s\<lparr>frame_countdown := - 1,
              trace := trace s @
                [CrnCompress (crn_compress e (data s) \<noteq> None), DestroyTexture (texture s)]\<rparr>)"
    by (auto simp: update_finalize fst_saveAsDDS split: option.split)
qed

theorem encode_failure_leaves_no_tile_witness:
  "\<not> fst (saveAsDDS env_no_compress (tile_path (crc32 env_no_compress ''a.tga''))
         (stbir_resize_uint8 env_no_compress ([1], 1, 1)) (new_ModelPlugin tile_files)) \<and>
   \<not> hasExtension ''a.tga'' ''dds'' \<and>
   Option.bind (files (new_ModelPlugin tile_files) ''a.tga'') (stbi_load env_no_compress) =
     Some ([1], 1, 1) \<and>
   texture_tile env_no_compress ''a.tga'' (new_ModelPlugin tile_files) =
     (new_ModelPlugin tile_files)
       \<lparr>trace := [StbiLoad ''a.tga'' True, CrnCompress False,
                  LogError ''Failed to save .lumix/asset_tiles/5.dds'']\<rparr> \<and>
   hasExtension ''b.dds'' ''dds'' \<and>
   files (new_ModelPlugin tile_files) ''b.dds'' = Some [2] \<and>
   crn_decompress_dds_to_images env_no_compress [2] = Some ([2], 1, 1) \<and>
   texture_tile env_no_compress ''b.dds'' (new_ModelPlugin tile_files) =
     (new_ModelPlugin tile_files)
       \<lparr>trace := [OpenRead ''b.dds'' True, CrnCompress False,
                  LogError ''Failed to save .lumix/asset_tiles/5.dds'']\<rparr> \<and>
   frame_countdown (draining\<lparr>frame_countdown := 0\<rparr>) = 0 \<and>
   update env_no_compress (draining\<lparr>frame_countdown := 0\<rparr>) =
     Some (draining\<lparr>frame_countdown := - 1,
             trace := trace draining @ [CrnCompress False, DestroyTexture (Some 0)]\<rparr>)"
  using encode_failure_leaves_no_tile [where e = env_no_compress and tile = "''a.tga''"
      and img = "([1], 1, 1)" and s = "new_ModelPlugin tile_files" and content = "[]"]
    encode_failure_leaves_no_tile [where e = env_no_compress and tile = "''b.dds''"
      and img = "([2], 1, 1)" and s = "new_ModelPlugin tile_files" and content = "[2]"]
    encode_failure_leaves_no_tile [where e = env_no_compress and tile = "''a.tga''"
      and img = "([1], 1, 1)" and s = "draining\<lparr>frame_countdown := 0\<rparr>" and content = "[]"]
  by (simp add: env_no_compress_def tile_files_def draining_def plugin_defs toCString.simps)

text \<open>
  The claim as stated (the placeholder is substituted at the cache path on both paths)
  fails: with a compressor that rejects its input, the worker's pass for \<open>a.tga\<close> and the
  finalize tick for \<open>a.msh\<close> both leave the file system as it was, with no file at the
  cache path although the placeholder tile exists; the finalize tick logs nothing.
\<close>

theorem placeholder_on_encode_failure_counterexample:
  "tile_files ''models/editor/tile_texture.dds'' = Some [7, 7] \<and>
   tile_files ''.lumix/asset_tiles/5.dds'' = None \<and>
   tile_path (crc32 env_no_compress ''a.tga'') = ''.lumix/asset_tiles/5.dds'' \<and>
   map_option files
     (run [CreateTile ''a.tga'' [] Texture_TYPE, TileTaskPass env_no_compress]
        (new_ModelPlugin tile_files)) = Some tile_files \<and>
   map_option trace
     (run [CreateTile ''a.tga'' [] Texture_TYPE, TileTaskPass env_no_compress]
        (new_ModelPlugin tile_files)) =
     Some [StbiLoad ''a.tga'' True, CrnCompress False,
           LogError ''Failed to save .lumix/asset_tiles/5.dds''] \<and>
   tile_path (getHash env_no_compress ''a.msh'') = ''.lumix/asset_tiles/5.dds'' \<and>
   map_option files
     (run [CreateTile ''a.msh'' [] Model_TYPE, Update env_no_compress, Update env_no_compress,
           Update env_no_compress, Update env_no_compress]
        (new_ModelPlugin tile_files)) = Some tile_files \<and>
   map_option trace
     (run [CreateTile ''a.msh'' [] Model_TYPE, Update env_no_compress, Update env_no_compress,
           Update env_no_compress, Update env_no_compress]
        (new_ModelPlugin tile_files)) =
     Some [ManagerLoad Model_TYPE ''a.msh'', CreateEntity 2, SetModelInstancePath 2 ''a.msh'',
           PipelineRender, CreateTexture2D 0, Blit 0, ReadTexture 0, DestroyEntity 2,
           ManagerUnload (load_resource ''a.msh''), CrnCompress False, DestroyTexture (Some 0)]"
proof -
  have "tile_files ''models/editor/tile_texture.dds'' = Some [7, 7]"
    "tile_files ''.lumix/asset_tiles/5.dds'' = None"
    by (simp_all add: tile_files_def)
  moreover have "tile_path (crc32 env_no_compress ''a.tga'') = ''.lumix/asset_tiles/5.dds''"
    "tile_path (getHash env_no_compress ''a.msh'') = ''.lumix/asset_tiles/5.dds''"
    by (simp_all add: env_no_compress_def plugin_defs toCString.simps)
  moreover have "run [CreateTile ''a.tga'' [] Texture_TYPE, TileTaskPass env_no_compress]
        (new_ModelPlugin tile_files) =
      Some ((new_ModelPlugin tile_files)
        \<lparr>trace := [StbiLoad ''a.tga'' True, CrnCompress False,
                   LogError ''Failed to save .lumix/asset_tiles/5.dds'']\<rparr>)"
    by (simp add: env_no_compress_def tile_files_def plugin_defs toCString.simps)
  moreover have "run [CreateTile ''a.msh'' [] Model_TYPE, Update env_no_compress,
          Update env_no_compress, Update env_no_compress, Update env_no_compress]
        (new_ModelPlugin tile_files) =
      Some ((new_ModelPlugin tile_files)
        \<lparr>frame_countdown := - 1, path_hash := 5, data := [1, 2, 3, 4], texture := Some 0,
         next_entity := 3, next_texture := 1,
         trace := [ManagerLoad Model_TYPE ''a.msh'', CreateEntity 2,
           SetModelInstancePath 2 ''a.msh'', PipelineRender, CreateTexture2D 0, Blit 0,
           ReadTexture 0, DestroyEntity 2, ManagerUnload (load_resource ''a.msh''),
           CrnCompress False, DestroyTexture (Some 0)]\<rparr>)"
    by (simp add: env_no_compress_def plugin_defs)
  ultimately show ?thesis
    by (simp add: new_ModelPlugin_def)
qed

subsection \<open>C5: images that cannot be read\<close>

text \<open>
  C5. The worker copies the placeholder tile to the cache path in all three failure
  branches (lemma \<open>texture_tile_placeholder\<close>) and the loop goes on to the other pending
  tiles (lemma \<open>createTextureTileTask_drains\<close>), but the branch for a
  DDS file that opens and does not decompress writes nothing to the error log, unlike the
  branches for a file that does not open and for an image that stb cannot load: for the
  existing file \<open>b.dds\<close> with a failing decompressor the trace of the pass is the opening
  of the file alone, while the missing files \<open>c.dds\<close> and \<open>c.tga\<close> are logged.
\<close>

theorem dds_decompress_failure_not_logged:
  "run [CreateTile ''b.dds'' [] Texture_TYPE, TileTaskPass env_no_decompress]
     (new_ModelPlugin tile_files) =
   Some ((new_ModelPlugin tile_files)
     \<lparr>files := tile_files(''.lumix/asset_tiles/5.dds'' \<mapsto> [7, 7]),
      trace := [OpenRead ''b.dds'' True]\<rparr>) \<and>
   run [CreateTile ''c.dds'' [] Texture_TYPE, TileTaskPass env_no_decompress]
     (new_ModelPlugin tile_files) =
   Some ((new_ModelPlugin tile_files)
     \<lparr>files := tile_files(''.lumix/asset_tiles/5.dds'' \<mapsto> [7, 7]),
      trace := [OpenRead ''c.dds'' False, LogError ''Failed to load c.dds'']\<rparr>) \<and>
   run [CreateTile ''c.tga'' [] Texture_TYPE, TileTaskPass env_no_decompress]
     (new_ModelPlugin tile_files) =
   Some ((new_ModelPlugin tile_files)
     \<lparr>files := tile_files(''.lumix/asset_tiles/5.dds'' \<mapsto> [7, 7]),
      trace := [StbiLoad ''c.tga'' False, LogError ''Failed to load c.tga'']\<rparr>)"
  by (simp add: env_no_decompress_def tile_files_def plugin_defs toCString.simps)

subsection \<open>C6: one tile in flight\<close>

text \<open>
  C6. Every execution from the constructed plugin (requests, ticks, callbacks of models,
  passes of the worker, in any order) ends in a state with at most one tile in flight: never
  an entity in fly together with a running countdown. While a tile is in flight, a tick
  takes no request from the ring or the overflow array and starts no tile generation.
\<close>

theorem pipeline_serial:
  "(\<exists>s. run xs (new_ModelPlugin fs) = Some s \<and> in_flight s \<le> 1) \<and>
   (0 < in_flight s \<and> update e s = Some s' \<longrightarrow>
      queue s' = queue s \<and> paths s' = paths s \<and> rendered (trace s') = rendered (trace s) \<and>
      in_flight s' \<le> in_flight s)"
proof
  from run_inv [OF new_ModelPlugin_inv, of xs fs]
  show "\<exists>s. run xs (new_ModelPlugin fs) = Some s \<and> in_flight s \<le> 1"
    by (auto dest: plugin_inv_in_flight)
next
  show "0 < in_flight s \<and> update e s = Some s' \<longrightarrow>
      queue s' = queue s \<and> paths s' = paths s \<and> rendered (trace s') = rendered (trace s) \<and>
      in_flight s' \<le> in_flight s"
    using update_in_flight by blast
qed

lemma run_draining:
  "run [CreateTile ''a.msh'' [] Model_TYPE, CreateTile ''b.msh'' [] Model_TYPE, Update env_ready]
     (new_ModelPlugin Map.empty) = Some draining"
  by (simp add: draining_def plugin_defs)

lemma update_draining:
  "update env_ready draining = Some (draining\<lparr>frame_countdown := 1\<rparr>)"
  by (simp add: draining_def plugin_defs)

theorem pipeline_serial_witness:
  "run [CreateTile ''a.msh'' [] Model_TYPE, CreateTile ''b.msh'' [] Model_TYPE, Update env_ready]
     (new_ModelPlugin Map.empty) = Some draining \<and>
   in_flight draining = 1 \<and>
   update env_ready draining = Some (draining\<lparr>frame_countdown := 1\<rparr>) \<and>
   queue (draining\<lparr>frame_countdown := 1\<rparr>) = [load_resource ''b.msh''] \<and>
   rendered (trace (draining\<lparr>frame_countdown := 1\<rparr>)) = [load_resource ''a.msh''] \<and>
   in_flight (draining\<lparr>frame_countdown := 1\<rparr>) = 1"
  using pipeline_serial [of "[CreateTile ''a.msh'' [] Model_TYPE, CreateTile ''b.msh'' [] Model_TYPE, Update env_ready]"
      Map.empty draining env_ready "draining\<lparr>frame_countdown := 1\<rparr>"]
    run_draining update_draining
  by (simp add: draining_def plugin_defs)

subsection \<open>C7: the admission ring is bounded\<close>

lemma length_queue_full_ring: "length (queue full_ring) = 8"
  by (simp add: full_ring_def)

text \<open>
  C7. The admission ring never holds more than 8 requests. From a state whose ring holds
  at most 8 resources, \<^verbatim>\<open>createTile\<close>, \<^verbatim>\<open>popTileQueue\<close> and \<^verbatim>\<open>update\<close> lead to
  states whose ring holds at most 8 resources; a model or prefab request that arrives
  while the ring is full is appended to the overflow array and the ring is left as it is;
  and every execution from the constructed plugin runs without a failed assertion and ends
  with at most 8 resources in the ring.
\<close>

theorem ring_bounded:
  assumes "length (queue s) \<le> QUEUE_CAPACITY"
  shows "(createTile i out t s = Some (b, s1) \<longrightarrow> length (queue s1) \<le> QUEUE_CAPACITY) \<and>
         (popTileQueue s = Some s2 \<longrightarrow> length (queue s2) \<le> QUEUE_CAPACITY) \<and>
         (update e s = Some s3 \<longrightarrow> length (queue s3) \<le> QUEUE_CAPACITY) \<and>
         (queue_full (queue s) \<and> (t = Model_TYPE \<or> t = PrefabResource_TYPE) \<longrightarrow>
            createTile i out t s = Some (True, s\<lparr>paths := paths s @ [i]\<rparr>)) \<and>
         (\<exists>s'. run xs (new_ModelPlugin fs) = Some s' \<and> length (queue s') \<le> QUEUE_CAPACITY)"
proof (intro conjI impI)
  assume "createTile i out t s = Some (b, s1)"
  then show "length (queue s1) \<le> QUEUE_CAPACITY" using assms by (rule createTile_length)
next
  assume "popTileQueue s = Some s2"
  from popTileQueue_length [OF this] assms show "length (queue s2) \<le> QUEUE_CAPACITY" by simp
next
  assume "update e s = Some s3"
  from update_length [OF this] assms show "length (queue s3) \<le> QUEUE_CAPACITY" by simp
next
  assume "queue_full (queue s) \<and> (t = Model_TYPE \<or> t = PrefabResource_TYPE)"
  then show "createTile i out t s = Some (True, s\<lparr>paths := paths s @ [i]\<rparr>)"
    by (simp add: createTile_overflow)
next
  from run_inv [OF new_ModelPlugin_inv, of xs fs]
  show "\<exists>s'. run xs (new_ModelPlugin fs) = Some s' \<and> length (queue s') \<le> QUEUE_CAPACITY"
    by (auto simp: plugin_inv_def)
qed

lemma full_ring_createTile:
  "createTile ''b.msh'' [] Model_TYPE full_ring = Some (True, full_ring\<lparr>paths := [''b.msh'']\<rparr>)"
  by (simp add: full_ring_def plugin_defs)

lemma full_ring_popTileQueue:
  "popTileQueue full_ring = Some (full_ring\<lparr>queue := replicate 7 (load_resource ''a.msh'')\<rparr>)"
  by (simp add: full_ring_def plugin_defs eval_nat_numeral)

lemma full_ring_update:
  "update env_ready full_ring =
     Some (renderTile_Model env_ready (load_resource ''a.msh'')
       (full_ring\<lparr>queue := replicate 7 (load_resource ''a.msh'')\<rparr>))"
  by (simp add: full_ring_def plugin_defs eval_nat_numeral)

theorem ring_bounded_witness:
  "length (queue full_ring) \<le> QUEUE_CAPACITY \<and>
   createTile ''b.msh'' [] Model_TYPE full_ring = Some (True, full_ring\<lparr>paths := [''b.msh'']\<rparr>) \<and>
   length (queue (full_ring\<lparr>paths := [''b.msh'']\<rparr>)) \<le> QUEUE_CAPACITY \<and>
   popTileQueue full_ring = Some (full_ring\<lparr>queue := replicate 7 (load_resource ''a.msh'')\<rparr>) \<and>
   length (queue (full_ring\<lparr>queue := replicate 7 (load_resource ''a.msh'')\<rparr>)) \<le> QUEUE_CAPACITY \<and>
   update env_ready full_ring =
     Some (renderTile_Model env_ready (load_resource ''a.msh'')
       (full_ring\<lparr>queue := replicate 7 (load_resource ''a.msh'')\<rparr>)) \<and>
   length (queue (renderTile_Model env_ready (load_resource ''a.msh'')
       (full_ring\<lparr>queue := replicate 7 (load_resource ''a.msh'')\<rparr>))) \<le> QUEUE_CAPACITY \<and>
   queue_full (queue full_ring)"
  using ring_bounded [of full_ring "''b.msh''" "[]" Model_TYPE True
      "full_ring\<lparr>paths := [''b.msh'']\<rparr>"
      "full_ring\<lparr>queue := replicate 7 (load_resource ''a.msh'')\<rparr>"
      env_ready
      "renderTile_Model env_ready (load_resource ''a.msh'')
         (full_ring\<lparr>queue := replicate 7 (load_resource ''a.msh'')\<rparr>)"]
    full_ring_createTile full_ring_popTileQueue full_ring_update
  by (simp add: length_queue_full_ring QUEUE_CAPACITY_def queue_full_def)

subsection \<open>C8: the request router\<close>

text \<open>
  C8. In every state that an execution from the constructed plugin reaches,
  \<^verbatim>\<open>createTile\<close> answers true for a texture request (the path is appended to the tile
  array and the semaphore is signalled) and for a model or prefab request: with room in
  the ring the resource is loaded and pushed, with a full ring the path is appended to the
  overflow array. For a type that the plugin does not know it answers false and the
  state is the one before the call.
\<close>

theorem createTile_accepts:
  assumes "run xs (new_ModelPlugin fs) = Some s"
  shows "createTile i out Texture_TYPE s =
           Some (True, s\<lparr>tiles := tiles s @ [i], semaphore := semaphore_signal (semaphore s)\<rparr>) \<and>
         (t = Model_TYPE \<or> t = PrefabResource_TYPE \<longrightarrow>
            createTile i out t s =
              Some (True,
                if queue_full (queue s) then s\<lparr>paths := paths s @ [i]\<rparr>
                else s\<lparr>queue := queue s @ [load_resource i],
                       trace := trace s @ [ManagerLoad (getType (load_resource i)) i]\<rparr>)) \<and>
         createTile i out (Other_TYPE n) s = Some (False, s)"
proof -
  from run_inv [OF new_ModelPlugin_inv, of xs fs] assms
  have len: "length (queue s) \<le> QUEUE_CAPACITY" by (auto simp: plugin_inv_def)
  have "createTile i out t s =
      Some (True,
        if queue_full (queue s) then s\<lparr>paths := paths s @ [i]\<rparr>
        else s\<lparr>queue := queue s @ [load_resource i],
               trace := trace s @ [ManagerLoad (getType (load_resource i)) i]\<rparr>)"
    if t: "t = Model_TYPE \<or> t = PrefabResource_TYPE"
  proof (cases "queue_full (queue s)")
    case True
    with t show ?thesis by (simp add: createTile_overflow)
  next
    case False
    with len have "length (queue s) < QUEUE_CAPACITY" by (simp add: queue_full_def)
    with t False show ?thesis by (simp add: createTile_push)
  qed
  then show ?thesis
    by (simp add: createTile_Texture createTile_unrecognized)
qed

lemma run_eight_requests:
  "run (replicate 8 (CreateTile ''a.msh'' [] Model_TYPE)) (new_ModelPlugin Map.empty) =
     Some (full_ring\<lparr>trace := replicate 8 (ManagerLoad Model_TYPE ''a.msh'')\<rparr>)"
  by (simp add: full_ring_def plugin_defs eval_nat_numeral)

theorem createTile_accepts_witness:
  "run (replicate 8 (CreateTile ''a.msh'' [] Model_TYPE)) (new_ModelPlugin Map.empty) =
     Some (full_ring\<lparr>trace := replicate 8 (ManagerLoad Model_TYPE ''a.msh'')\<rparr>) \<and>
   createTile ''b.fab'' [] Texture_TYPE
       (full_ring\<lparr>trace := replicate 8 (ManagerLoad Model_TYPE ''a.msh'')\<rparr>) =
     Some (True, full_ring\<lparr>trace := replicate 8 (ManagerLoad Model_TYPE ''a.msh''),
                           tiles := [''b.fab''], semaphore := 1\<rparr>) \<and>
   createTile ''b.fab'' [] PrefabResource_TYPE
       (full_ring\<lparr>trace := replicate 8 (ManagerLoad Model_TYPE ''a.msh'')\<rparr>) =
     Some (True, full_ring\<lparr>trace := replicate 8 (ManagerLoad Model_TYPE ''a.msh''),
                           paths := [''b.fab'']\<rparr>) \<and>
   createTile ''b.fab'' [] (Other_TYPE ''animation'')
       (full_ring\<lparr>trace := replicate 8 (ManagerLoad Model_TYPE ''a.msh'')\<rparr>) =
     Some (False, full_ring\<lparr>trace := replicate 8 (ManagerLoad Model_TYPE ''a.msh'')\<rparr>)"
  using createTile_accepts [OF run_eight_requests, where i = "''b.fab''" and out = "[]"
      and t = PrefabResource_TYPE and n = "''animation''"]
    run_eight_requests
  by (simp add: full_ring_def new_ModelPlugin_def queue_full_def
      QUEUE_CAPACITY_def semaphore_signal_def SEMAPHORE_MAX_def)

subsection \<open>C9: where the entity and the resource are released\<close>




subsection \<open>C10: the worker takes the newest tile\<close>

text \<open>
  C10. While the worker is not shut down: when the semaphore is signalled and the pending
  tiles are \<open>ts @ [t]\<close>, one pass of the loop takes \<open>t\<close>, the last tile of the array,
  opens its image and leaves \<open>ts\<close> pending. \<^verbatim>\<open>createTile\<close> appends at the end, so after two
  texture requests \<open>a\<close> and then \<open>b\<close> the next pass processes \<open>b\<close>, the request submitted
  last, and \<open>a\<close> and everything older stay pending.
\<close>

theorem worker_takes_newest:
  assumes "\<not> shutdown s"
  shows "(0 < semaphore s \<and> tiles s = ts @ [t] \<longrightarrow>
            (\<exists>s'. tile_task_pass e s = Some (Continue, s') \<and> tiles s' = ts \<and>
               resized (trace s') = resized (trace s) @ [t])) \<and>
         (createTile a out1 Texture_TYPE s = Some (True, s1) \<and>
          createTile b out2 Texture_TYPE s1 = Some (True, s2) \<longrightarrow>
            tiles s2 = tiles s @ [a, b] \<and>
            (\<exists>s3. tile_task_pass e s2 = Some (Continue, s3) \<and> tiles s3 = tiles s @ [a] \<and>
               resized (trace s3) = resized (trace s) @ [b]))"
proof (rule conjI)
  show "0 < semaphore s \<and> tiles s = ts @ [t] \<longrightarrow>
      (\<exists>s'. tile_task_pass e s = Some (Continue, s') \<and> tiles s' = ts \<and>
         resized (trace s') = resized (trace s) @ [t])"
    using assms tile_task_pass_takes_last [of s ts t e] by auto
next
  show "createTile a out1 Texture_TYPE s = Some (True, s1) \<and>
      createTile b out2 Texture_TYPE s1 = Some (True, s2) \<longrightarrow>
      tiles s2 = tiles s @ [a, b] \<and>
      (\<exists>s3. tile_task_pass e s2 = Some (Continue, s3) \<and> tiles s3 = tiles s @ [a] \<and>
         resized (trace s3) = resized (trace s) @ [b])"
  proof
    assume c: "createTile a out1 Texture_TYPE s = Some (True, s1) \<and>
        createTile b out2 Texture_TYPE s1 = Some (True, s2)"
    then have s2: "tiles s2 = (tiles s @ [a]) @ [b]" "\<not> shutdown s2" "0 < semaphore s2"
        "trace s2 = trace s"
      using assms
      by (auto simp: createTile_def array_push_def semaphore_signal_def SEMAPHORE_MAX_def)
    from tile_task_pass_takes_last [OF s2(2) s2(3) s2(1), of e] s2
    show "tiles s2 = tiles s @ [a, b] \<and>
        (\<exists>s3. tile_task_pass e s2 = Some (Continue, s3) \<and> tiles s3 = tiles s @ [a] \<and>
           resized (trace s3) = resized (trace s) @ [b])"
      by auto
  qed
qed

theorem worker_takes_newest_witness:
  "\<not> shutdown (new_ModelPlugin tile_files) \<and>
   createTile ''a.tga'' [] Texture_TYPE (new_ModelPlugin tile_files) =
     Some (True, (new_ModelPlugin tile_files)\<lparr>tiles := [''a.tga''], semaphore := 1\<rparr>) \<and>
   createTile ''b.dds'' [] Texture_TYPE
       ((new_ModelPlugin tile_files)\<lparr>tiles := [''a.tga''], semaphore := 1\<rparr>) =
     Some (True, (new_ModelPlugin tile_files)\<lparr>tiles := [''a.tga'', ''b.dds''], semaphore := 2\<rparr>) \<and>
   tile_task_pass env_ready
       ((new_ModelPlugin tile_files)\<lparr>tiles := [''a.tga'', ''b.dds''], semaphore := 2\<rparr>) =
     Some (Continue,
       (new_ModelPlugin tile_files)
         \<lparr>tiles := [''a.tga''], semaphore := 1,
          files := tile_files(''.lumix/asset_tiles/5.dds'' \<mapsto> [0, 2]),
          trace := [OpenRead ''b.dds'' True, CrnCompress True]\<rparr>)"
  using worker_takes_newest [of "new_ModelPlugin tile_files" "[''a.tga'']" "''b.dds''" env_ready
      "''a.tga''" "[]" "(new_ModelPlugin tile_files)\<lparr>tiles := [''a.tga''], semaphore := 1\<rparr>"
      "''b.dds''" "[]"
      "(new_ModelPlugin tile_files)\<lparr>tiles := [''a.tga'', ''b.dds''], semaphore := 2\<rparr>"]
  by (simp add: tile_files_def plugin_defs toCString.simps)

end
